theory Spec2Isabelle
  imports Main "HOL-Library.Sublist"
begin

section \<open>Strings as the TypeScript code uses them\<close>

text \<open>
  Strings are modelled as \<^typ>\<open>string\<close>. \<open>String.prototype.trim\<close> removes white space
  at both ends; the white space of the model is the ASCII part of the ECMAScript set
  (TAB, LF, VT, FF, CR, SPACE).
\<close>

definition is_ws :: "char \<Rightarrow> bool" where
  "is_ws c = (c \<in> set [CHR 0x09, CHR 0x0A, CHR 0x0B, CHR 0x0C, CHR 0x0D, CHR '' ''])"

definition trim :: "string \<Rightarrow> string" where
  "trim s = rev (dropWhile is_ws (rev (dropWhile is_ws s)))"

text \<open>\<open>s.includes(sub)\<close>: \<open>sub\<close> occurs in \<open>s\<close> as a contiguous substring.\<close>

fun str_includes :: "string \<Rightarrow> string \<Rightarrow> bool" where
  "str_includes [] sub = (sub = [])"
| "str_includes (x # xs) sub = (prefix sub (x # xs) \<or> str_includes xs sub)"

text \<open>
  An optional string property (\<open>baseUrl?: string\<close>, a configuration string) is truthy
  when it is present and not the empty string.
\<close>

fun truthy :: "string option \<Rightarrow> bool" where
  "truthy None = False"
| "truthy (Some s) = (s \<noteq> [])"

section \<open>types.ts\<close>

datatype CopilotCategory = Plugins | Instructions | Prompts | Agents | Skills

text \<open>The string value of each member of the enum \<open>CopilotCategory\<close>.\<close>

fun category_value :: "CopilotCategory \<Rightarrow> string" where
  "category_value Plugins = ''plugins''"
| "category_value Instructions = ''instructions''"
| "category_value Prompts = ''prompts''"
| "category_value Agents = ''agents''"
| "category_value Skills = ''skills''"

text \<open>
  \<open>FolderMapping = Partial<Record<CopilotCategory, string | null>>\<close>: a category is absent
  from the mapping, mapped to \<open>null\<close>, or mapped to a string.
\<close>

datatype mapping_value = MNull | MString string

type_synonym FolderMapping = "CopilotCategory \<rightharpoonup> mapping_value"

record RepoSource =
  owner :: string
  repo :: string
  label :: "string option"
  baseUrl :: "string option"
  folderMappings :: "FolderMapping option"

text \<open>
  \<open>resolveContentPath\<close>: the folder to query for a category, \<open>None\<close> for the \<open>null\<close>
  result (category excluded). The three tests on the mapping are tried in the order of
  the source and fall through to the default.
\<close>

definition resolveContentPath :: "RepoSource \<Rightarrow> CopilotCategory \<Rightarrow> string option" where
  "resolveContentPath r category =
     (case folderMappings r of
        None \<Rightarrow> Some (category_value category)
      | Some fm \<Rightarrow>
          (case fm category of
             Some MNull \<Rightarrow> None
           | Some (MString mapping) \<Rightarrow>
               if mapping = ''root'' then Some ''''
               else if trim mapping \<noteq> '''' then Some (trim mapping)
               else Some (category_value category)
           | None \<Rightarrow> Some (category_value category)))"

text \<open>A repository whose mapping shows every case of the resolver.\<close>

definition mapped_repo :: RepoSource where
  "mapped_repo =
     \<lparr>owner = ''acme'', repo = ''tools'', label = None, baseUrl = None,
      folderMappings = Some [Agents \<mapsto> MNull, Skills \<mapsto> MString ''root'',
        Prompts \<mapsto> MString ''  my/prompts '', Instructions \<mapsto> MString ''   '']\<rparr>"

record GitHubFile =
  f_name :: string
  f_path :: string
  f_download_url :: string
  f_size :: nat
  f_type :: string
  f_sha :: "string option"
  f_repo :: "RepoSource option"
  f_displayName :: "string option"

record CacheEntry =
  ce_data :: "GitHubFile list"
  ce_timestamp :: int
  ce_category :: CopilotCategory
  ce_repo :: RepoSource

definition PLUGIN_JSON_RELATIVE_PATH :: string where
  "PLUGIN_JSON_RELATIVE_PATH = ''.github/plugin/plugin.json''"

fun FOLDER_PATHS :: "CopilotCategory \<Rightarrow> string" where
  "FOLDER_PATHS Plugins = ''.github/plugins''"
| "FOLDER_PATHS Instructions = ''.github/instructions''"
| "FOLDER_PATHS Prompts = ''.github/prompts''"
| "FOLDER_PATHS Agents = ''.github/agents''"
| "FOLDER_PATHS Skills = ''.github/skills''"

definition KIND_TO_CATEGORY :: "string \<rightharpoonup> CopilotCategory" where
  "KIND_TO_CATEGORY =
     [''instruction'' \<mapsto> Instructions, ''prompt'' \<mapsto> Prompts,
      ''agent'' \<mapsto> Agents, ''skill'' \<mapsto> Skills]"

section \<open>githubService.ts: the environment of the service\<close>

text \<open>
  Errors are values. An error thrown by \<open>axios.get\<close> carries the status of the response
  (\<open>None\<close> when there was no response: time-out, connection failure), whether the header
  \<open>x-ratelimit-remaining\<close> is zero, whether \<open>x-ratelimit-reset\<close> is present, and its
  message. \<open>TypeError\<close> is what calling \<open>.filter\<close> on a response that is no array throws;
  \<open>Error\<close> is \<open>new Error(message)\<close>.
\<close>

datatype js_error =
    AxiosError "nat option" bool bool string
  | TypeError string
  | Error string

fun error_status :: "js_error \<Rightarrow> nat option" where
  "error_status (AxiosError st rz rr m) = st"
| "error_status (TypeError m) = None"
| "error_status (Error m) = None"

fun error_message :: "js_error \<Rightarrow> string" where
  "error_message (AxiosError st rz rr m) = m"
| "error_message (TypeError m) = m"
| "error_message (Error m) = m"

text \<open>The text of \<open>`${error}`\<close>: the name of the error class, a colon, the message.\<close>

fun error_text :: "js_error \<Rightarrow> string" where
  "error_text (AxiosError st rz rr m) = ''AxiosError: '' @ m"
| "error_text (TypeError m) = ''TypeError: '' @ m"
| "error_text (Error m) = ''Error: '' @ m"

text \<open>
  What the Contents API answers: an array of entries for a directory, one object for a
  file fetched by its exact path.
\<close>

record file_object =
  fo_type :: string
  fo_content :: "string option"
  fo_encoding :: "string option"
  fo_download_url :: "string option"
  fo_sha :: string
  fo_size :: nat

datatype response_data = Listing "GitHubFile list" | FileObject file_object

datatype https_agent = Agent (rejectUnauthorized: bool) (checksServerIdentity: bool)

record axios_config =
  cfg_authorization :: "string option"
  cfg_withCredentials :: bool
  cfg_httpsAgent :: "https_agent option"

text \<open>
  Every request the service issues is recorded with its configuration, with the value
  \<open>process.env.NODE_TLS_REJECT_UNAUTHORIZED\<close> had while it ran, and with the error it
  ended in, if any.
\<close>

record request =
  req_url :: string
  req_config :: axios_config
  req_tls_env :: "string option"
  req_error :: "js_error option"

datatype session_result = SessionThrows | NoSession | Session string

text \<open>
  The world outside the service: the three settings it reads, and what the
  authentication provider, the user (does the dialog end in "Sign In"?), the network and
  the clock answer. Each answer may depend on the moment it is asked for, counted by the
  field \<open>tick\<close> of the state. \<open>http_get\<close> answers the requests to the Contents API,
  \<open>http_raw\<close> the downloads of a raw file, whose body is a string. \<open>decodeContent\<close> is
  \<open>Buffer.from(content, encoding).toString('utf8')\<close>, \<open>None\<close> when it throws, and
  \<open>JSON_parse\<close> is \<open>JSON.parse\<close>, \<open>None\<close> when it throws. \<open>directoryContents\<close> is
  what \<open>getDirectoryContents\<close> returns or throws for a repository and a path: that
  method fans out one concurrent call per subdirectory and is not modelled beyond its
  result.
\<close>

datatype json = JNull | JBool bool | JNumber int | JString string
  | JArray "json list" | JObject "(string \<times> json) list"

record world =
  enableGithubAuth :: bool
  allowInsecureEnterpriseCerts :: bool
  enterpriseToken :: "string option"
  getSession :: "nat \<Rightarrow> bool \<Rightarrow> session_result"
  signInChosen :: "nat \<Rightarrow> bool"
  http_get :: "nat \<Rightarrow> string \<Rightarrow> js_error + response_data"
  http_raw :: "nat \<Rightarrow> string \<Rightarrow> js_error + string"
  date_now :: "nat \<Rightarrow> int"
  decodeContent :: "string \<Rightarrow> string \<Rightarrow> string option"
  JSON_parse :: "string \<Rightarrow> json option"
  directoryContents :: "nat \<Rightarrow> RepoSource \<Rightarrow> string \<Rightarrow> js_error + GitHubFile list"

text \<open>
  The state: the private cache of the service instance, the variable
  \<open>NODE_TLS_REJECT_UNAUTHORIZED\<close> of the process environment (\<open>None\<close> when unset), the
  requests issued so far, and the count of the questions asked to the world.
\<close>

record service =
  cache :: "string \<rightharpoonup> CacheEntry"
  tls_env :: "string option"
  requests :: "request list"
  tick :: nat

definition CACHE_DURATION :: int where
  "CACHE_DURATION = 60 * 60 * 1000"

definition ask_session :: "world \<Rightarrow> service \<Rightarrow> bool \<Rightarrow> session_result \<times> service" where
  "ask_session w s createIfNone = (getSession w (tick s) createIfNone, s\<lparr>tick := Suc (tick s)\<rparr>)"

definition ask_dialog :: "world \<Rightarrow> service \<Rightarrow> bool \<times> service" where
  "ask_dialog w s = (signInChosen w (tick s), s\<lparr>tick := Suc (tick s)\<rparr>)"

definition axios_get ::
  "world \<Rightarrow> string \<Rightarrow> axios_config \<Rightarrow> service \<Rightarrow> (js_error + response_data) \<times> service" where
  "axios_get w url cfg s =
     (let res = http_get w (tick s) url in
      (res, s\<lparr>tick := Suc (tick s),
             requests := requests s @
               [\<lparr>req_url = url, req_config = cfg, req_tls_env = tls_env s,
                 req_error = (case res of Inl e \<Rightarrow> Some e | Inr d \<Rightarrow> None)\<rparr>]\<rparr>))"

definition axios_get_raw ::
  "world \<Rightarrow> string \<Rightarrow> axios_config \<Rightarrow> service \<Rightarrow> (js_error + string) \<times> service" where
  "axios_get_raw w url cfg s =
     (let res = http_raw w (tick s) url in
      (res, s\<lparr>tick := Suc (tick s),
             requests := requests s @
               [\<lparr>req_url = url, req_config = cfg, req_tls_env = tls_env s,
                 req_error = (case res of Inl e \<Rightarrow> Some e | Inr d \<Rightarrow> None)\<rparr>]\<rparr>))"

section \<open>githubService.ts: authentication\<close>

text \<open>
  \<open>ensureGitHubAuth\<close>. An exception of the provider is caught and gives \<open>false\<close>.
\<close>

definition ensureGitHubAuth :: "world \<Rightarrow> service \<Rightarrow> bool \<Rightarrow> bool \<times> service" where
  "ensureGitHubAuth w s isEnterprise =
     (if \<not> enableGithubAuth w then (False, s)
      else if isEnterprise \<and> truthy (enterpriseToken w) then (True, s)
      else
        (case ask_session w s False of
           (SessionThrows, s1) \<Rightarrow> (False, s1)
         | (Session t, s1) \<Rightarrow> (True, s1)
         | (NoSession, s1) \<Rightarrow>
             (case ask_dialog w s1 of
                (False, s2) \<Rightarrow> (False, s2)
              | (True, s2) \<Rightarrow>
                  (case ask_session w s2 True of
                     (Session t, s3) \<Rightarrow> (True, s3)
                   | (NoSession, s3) \<Rightarrow> (False, s3)
                   | (SessionThrows, s3) \<Rightarrow> (False, s3)))))"

definition checkAuthentication :: "world \<Rightarrow> service \<Rightarrow> bool \<times> service" where
  "checkAuthentication w s =
     (if truthy (enterpriseToken w) then (True, s)
      else
        (case ask_session w s False of
           (Session t, s1) \<Rightarrow> (True, s1)
         | (NoSession, s1) \<Rightarrow> (False, s1)
         | (SessionThrows, s1) \<Rightarrow> (False, s1)))"

text \<open>
  \<open>handleAuthError\<close>: only a response with status 401 or 403 can lead to a retry, and
  only when the user chooses to sign in and \<open>ensureGitHubAuth\<close> succeeds.
\<close>

definition handleAuthError :: "world \<Rightarrow> service \<Rightarrow> js_error \<Rightarrow> bool \<Rightarrow> bool \<times> service" where
  "handleAuthError w s error isEnterprise =
     (case error of
        AxiosError statusCode remainingZero resetPresent m \<Rightarrow>
          if statusCode = Some 401 \<or> statusCode = Some 403 then
            if \<not> enableGithubAuth w then (False, s)
            else if remainingZero then
              (if resetPresent then
                 (case ask_dialog w s of
                    (True, s1) \<Rightarrow> ensureGitHubAuth w s1 isEnterprise
                  | (False, s1) \<Rightarrow> (False, s1))
               else (False, s))
            else
              (case ask_dialog w s of
                 (True, s1) \<Rightarrow> ensureGitHubAuth w s1 isEnterprise
               | (False, s1) \<Rightarrow> (False, s1))
          else (False, s)
      | TypeError m \<Rightarrow> (False, s)
      | Error m \<Rightarrow> (False, s))"

text \<open>
  \<open>createHttpsAgent\<close>: here a URL is "enterprise" when it does not contain
  \<open>github.com\<close>.
\<close>

definition createHttpsAgent :: "world \<Rightarrow> string \<Rightarrow> https_agent option" where
  "createHttpsAgent w url =
     (let isEnterprise = \<not> str_includes url ''github.com'' in
      if isEnterprise \<and> allowInsecureEnterpriseCerts w then Some (Agent False False)
      else if isEnterprise then Some (Agent True True)
      else None)"

text \<open>
  \<open>createRequestHeaders\<close>: of the headers only \<open>Authorization\<close> varies; the model returns
  the bearer token, if any.
\<close>

definition createRequestHeaders :: "world \<Rightarrow> service \<Rightarrow> bool \<Rightarrow> string option \<times> service" where
  "createRequestHeaders w s isEnterprise =
     (if enableGithubAuth w then
        if isEnterprise \<and> truthy (enterpriseToken w) then (enterpriseToken w, s)
        else
          (case ask_session w s False of
             (Session accessToken, s1) \<Rightarrow>
               if accessToken \<noteq> '''' then (Some accessToken, s1) else (None, s1)
           | (NoSession, s1) \<Rightarrow> (None, s1)
           | (SessionThrows, s1) \<Rightarrow> (None, s1))
      else (None, s))"

section \<open>githubService.ts: requests\<close>

text \<open>\<open>baseUrl.replace(/\/$/, '')\<close> removes one slash at the end.\<close>

definition strip_trailing_slash :: "string \<Rightarrow> string" where
  "strip_trailing_slash u = (if u \<noteq> [] \<and> last u = CHR ''/'' then butlast u else u)"

definition buildApiUrlForPath :: "RepoSource \<Rightarrow> string \<Rightarrow> string" where
  "buildApiUrlForPath r p =
     (let contentsSuffix = (if p \<noteq> '''' then ''/contents/'' @ p else ''/contents'') in
      case baseUrl r of
        Some b \<Rightarrow>
          if b \<noteq> '''' then
            strip_trailing_slash b @ ''/api/v3/repos/'' @ owner r @ ''/'' @ repo r @ contentsSuffix
          else ''https://api.github.com/repos/'' @ owner r @ ''/'' @ repo r @ contentsSuffix
      | None \<Rightarrow> ''https://api.github.com/repos/'' @ owner r @ ''/'' @ repo r @ contentsSuffix)"

text \<open>
  The block that the source repeats around every \<open>axios.get\<close>: when \<open>relax\<close> holds
  (\<open>isEnterprise && allowInsecureEnterpriseCerts\<close>), the variable is saved, set to
  \<open>'0'\<close>, the request runs, and the \<open>finally\<close> clause deletes the variable if it was
  unset and writes the saved value back otherwise, whether the request returned or
  threw. Otherwise the request runs as it is.
\<close>

definition tls_scoped :: "bool \<Rightarrow> (service \<Rightarrow> 'a \<times> service) \<Rightarrow> service \<Rightarrow> 'a \<times> service" where
  "tls_scoped relax request s =
     (if relax then
        (let originalRejectUnauthorized = tls_env s;
             (response, s2) = request (s\<lparr>tls_env := Some ''0''\<rparr>)
         in (response,
             case originalRejectUnauthorized of
               None \<Rightarrow> s2\<lparr>tls_env := None\<rparr>
             | Some v \<Rightarrow> s2\<lparr>tls_env := Some v\<rparr>))
      else request s)"

text \<open>
  The request of a listing, as \<open>getFiles\<close> and \<open>getFilesByRepo\<close> both write it: headers,
  agent, the request, and after a failure that \<open>handleAuthError\<close> answers with \<open>true\<close>
  one more request with new headers; any other failure is thrown again.
\<close>

definition listing_request ::
  "world \<Rightarrow> service \<Rightarrow> RepoSource \<Rightarrow> string \<Rightarrow> (js_error + response_data) \<times> service" where
  "listing_request w s r apiUrl =
     (let isEnterprise = truthy (baseUrl r);
          (authorization, s1) = createRequestHeaders w s isEnterprise;
          httpsAgent = (if isEnterprise then createHttpsAgent w apiUrl else None);
          axiosConfig = \<lparr>cfg_authorization = authorization, cfg_withCredentials = isEnterprise,
                         cfg_httpsAgent = httpsAgent\<rparr>;
          relax = (isEnterprise \<and> allowInsecureEnterpriseCerts w)
      in case tls_scoped relax (axios_get w apiUrl axiosConfig) s1 of
           (Inr response, s2) \<Rightarrow> (Inr response, s2)
         | (Inl requestError, s2) \<Rightarrow>
             (case handleAuthError w s2 requestError isEnterprise of
                (True, s3) \<Rightarrow>
                  (let (newAuthorization, s4) = createRequestHeaders w s3 isEnterprise
                   in tls_scoped relax
                        (axios_get w apiUrl (axiosConfig\<lparr>cfg_authorization := newAuthorization\<rparr>)) s4)
              | (False, s3) \<Rightarrow> (Inl requestError, s3)))"

text \<open>
  The block "proactively check for authentication" of \<open>getFiles\<close> and
  \<open>getFilesByRepo\<close>: when \<open>check\<close> holds and \<open>checkAuthentication\<close> finds no credential,
  the user is offered to sign in; the answer of \<open>ensureGitHubAuth\<close> is not used.
\<close>

definition proactive_auth :: "world \<Rightarrow> service \<Rightarrow> bool \<Rightarrow> service" where
  "proactive_auth w s check =
     (if check then
        (case checkAuthentication w s of
           (True, sa) \<Rightarrow> sa
         | (False, sa) \<Rightarrow> snd (ensureGitHubAuth w sa False))
      else s)"

text \<open>
  The filter on the type of an entry: directories for skills and plugins, files for
  the other categories. Each entry kept is copied with its repository.
\<close>

definition keep_entry :: "CopilotCategory \<Rightarrow> GitHubFile \<Rightarrow> bool" where
  "keep_entry category file =
     (if category = Skills then f_type file = ''dir''
      else if category = Plugins then f_type file = ''dir''
      else f_type file = ''file'')"

definition filter_listing :: "RepoSource \<Rightarrow> CopilotCategory \<Rightarrow> GitHubFile list \<Rightarrow> GitHubFile list" where
  "filter_listing r category items =
     map (\<lambda>f. f\<lparr>f_repo := Some r\<rparr>) (filter (keep_entry category) items)"

definition repo_key :: "RepoSource \<Rightarrow> string" where
  "repo_key r =
     (case baseUrl r of
        Some b \<Rightarrow> if b \<noteq> '''' then b else ''github.com''
      | None \<Rightarrow> ''github.com'') @ ''/'' @ owner r @ ''/'' @ repo r"

definition cache_key :: "RepoSource \<Rightarrow> CopilotCategory \<Rightarrow> string" where
  "cache_key r category = repo_key r @ ''|'' @ category_value category"

text \<open>
  The test \<open>!forceRefresh && cacheEntry && (now - cacheEntry.timestamp) < CACHE_DURATION\<close>:
  the data of the entry when it holds.
\<close>

definition cache_lookup :: "bool \<Rightarrow> int \<Rightarrow> CacheEntry option \<Rightarrow> GitHubFile list option" where
  "cache_lookup forceRefresh now cacheEntry =
     (case cacheEntry of
        None \<Rightarrow> None
      | Some e \<Rightarrow>
          if \<not> forceRefresh \<and> now - ce_timestamp e < CACHE_DURATION then Some (ce_data e)
          else None)"

text \<open>
  \<open>getFilesByRepo\<close>. The result is \<open>Inr\<close> the array returned or \<open>Inl\<close> the error thrown.
  A response that is no array makes \<open>.filter\<close> throw a \<open>TypeError\<close>, which the \<open>catch\<close>
  clause wraps like every error other than a 404.
\<close>

definition load_error :: "RepoSource \<Rightarrow> CopilotCategory \<Rightarrow> js_error \<Rightarrow> js_error" where
  "load_error r category error =
     Error (''Failed to load '' @ category_value category @ '' from '' @
            owner r @ ''/'' @ repo r @ '': '' @ error_text error)"

definition not_an_array :: js_error where
  "not_an_array = TypeError ''response.data.filter is not a function''"

definition getFilesByRepo ::
  "world \<Rightarrow> service \<Rightarrow> RepoSource \<Rightarrow> CopilotCategory \<Rightarrow> bool \<Rightarrow> (js_error + GitHubFile list) \<times> service" where
  "getFilesByRepo w s r category forceRefresh =
     (case resolveContentPath r category of
        None \<Rightarrow> (Inr [], s)
      | Some contentPath \<Rightarrow>
          (let now = date_now w (tick s);
               cacheKey = cache_key r category
           in case cache_lookup forceRefresh now (cache s cacheKey) of
                Some d \<Rightarrow> (Inr d, s)
              | None \<Rightarrow>
                  (let isEnterprise = truthy (baseUrl r);
                       s1 = proactive_auth w s (enableGithubAuth w \<and> \<not> isEnterprise)
                   in case listing_request w s1 r (buildApiUrlForPath r contentPath) of
                        (Inr (Listing items), s2) \<Rightarrow>
                          (let files = filter_listing r category items
                           in (Inr files,
                               s2\<lparr>cache := (cache s2)(cacheKey \<mapsto>
                                     \<lparr>ce_data = files, ce_timestamp = now,
                                      ce_category = category, ce_repo = r\<rparr>)\<rparr>))
                      | (Inr (FileObject fo), s2) \<Rightarrow>
                          (Inl (load_error r category not_an_array), s2)
                      | (Inl error, s2) \<Rightarrow>
                          if error_status error = Some 404 then (Inr [], s2)
                          else (Inl (load_error r category error), s2))))"

text \<open>
  \<open>getFiles\<close>. One turn of the loop over the sources: the cache is asked first; on a miss
  the path is resolved, the listing requested, filtered, cached and appended. Whatever
  the \<open>try\<close> block throws is caught: a 404 is logged, any other error is shown in the
  status bar, and the loop goes on. Besides the state and \<open>allFiles\<close> the loop keeps
  the keys whose cache entry supplied or received an array in this call: the objects of
  such an array are the very objects appended to \<open>allFiles\<close>.
\<close>

definition getFiles_repo ::
  "world \<Rightarrow> CopilotCategory \<Rightarrow> bool \<Rightarrow> int \<Rightarrow> RepoSource \<Rightarrow>
   service \<times> GitHubFile list \<times> string list \<Rightarrow> service \<times> GitHubFile list \<times> string list" where
  "getFiles_repo w category forceRefresh now r st =
     (case st of (s, allFiles, touched) \<Rightarrow>
        (let cacheKey = cache_key r category
         in case cache_lookup forceRefresh now (cache s cacheKey) of
              Some d \<Rightarrow> (s, allFiles @ d, touched @ [cacheKey])
            | None \<Rightarrow>
                (case resolveContentPath r category of
                   None \<Rightarrow> (s, allFiles, touched)
                 | Some contentPath \<Rightarrow>
                     (case listing_request w s r (buildApiUrlForPath r contentPath) of
                        (Inr (Listing items), s2) \<Rightarrow>
                          (let files = filter_listing r category items
                           in (s2\<lparr>cache := (cache s2)(cacheKey \<mapsto>
                                    \<lparr>ce_data = files, ce_timestamp = now,
                                     ce_category = category, ce_repo = r\<rparr>)\<rparr>,
                               allFiles @ files, touched @ [cacheKey]))
                      | (Inr (FileObject fo), s2) \<Rightarrow> (s2, allFiles, touched)
                      | (Inl error, s2) \<Rightarrow> (s2, allFiles, touched)))))"

fun getFiles_loop ::
  "world \<Rightarrow> CopilotCategory \<Rightarrow> bool \<Rightarrow> int \<Rightarrow> RepoSource list \<Rightarrow>
   service \<times> GitHubFile list \<times> string list \<Rightarrow> service \<times> GitHubFile list \<times> string list" where
  "getFiles_loop w category forceRefresh now [] st = st"
| "getFiles_loop w category forceRefresh now (r # sources) st =
     getFiles_loop w category forceRefresh now sources
       (getFiles_repo w category forceRefresh now r st)"

text \<open>
  The first pass over \<open>allFiles\<close>: \<open>fileNameCounts\<close> and \<open>duplicateNames\<close>; a name
  enters \<open>duplicateNames\<close> when it has been counted before.
\<close>

fun count_names :: "GitHubFile list \<Rightarrow> (string \<rightharpoonup> nat) \<Rightarrow> string set \<Rightarrow> string set" where
  "count_names [] fileNameCounts duplicateNames = duplicateNames"
| "count_names (file # files) fileNameCounts duplicateNames =
     (let count = (case fileNameCounts (f_name file) of Some n \<Rightarrow> n | None \<Rightarrow> 0)
      in count_names files (fileNameCounts(f_name file \<mapsto> count + 1))
           (if count \<ge> 1 then insert (f_name file) duplicateNames else duplicateNames))"

text \<open>The second pass writes \<open>displayName\<close> of every entry.\<close>

definition set_displayName :: "string set \<Rightarrow> GitHubFile \<Rightarrow> GitHubFile" where
  "set_displayName duplicateNames file =
     (case f_repo file of
        Some r \<Rightarrow>
          if f_name file \<in> duplicateNames then
            file\<lparr>f_displayName := Some (f_name file @ '' ('' @ owner r @ ''/'' @ repo r @ '')'')\<rparr>
          else file\<lparr>f_displayName := Some (f_name file)\<rparr>
      | None \<Rightarrow> file\<lparr>f_displayName := Some (f_name file)\<rparr>)"

datatype storage = SourcesThrow | Sources "RepoSource list"

definition default_sources :: "RepoSource list" where
  "default_sources =
     [\<lparr>owner = ''github'', repo = ''awesome-copilot'', label = Some ''Git Copilot Tools'',
       baseUrl = None, folderMappings = None\<rparr>]"

text \<open>
  \<open>getFiles\<close> itself. \<open>context\<close> is \<open>None\<close> when the argument is absent; otherwise it holds
  what \<open>RepoStorage.getSources\<close> does. The second pass assigns to the objects in
  \<open>allFiles\<close>, which the cache entries of the keys touched in this call share: the
  model writes the same assignment to those entries. The function throws nothing.
\<close>

definition getFiles ::
  "world \<Rightarrow> service \<Rightarrow> CopilotCategory \<Rightarrow> bool \<Rightarrow> storage option \<Rightarrow> GitHubFile list \<times> service" where
  "getFiles w s category forceRefresh context =
     (let sources = (case context of
                       Some (Sources l) \<Rightarrow> l
                     | Some SourcesThrow \<Rightarrow> default_sources
                     | None \<Rightarrow> default_sources);
          s1 = proactive_auth w s (enableGithubAuth w);
          now = date_now w (tick s1)
      in case getFiles_loop w category forceRefresh now sources (s1, [], []) of
           (s2, allFiles, touched) \<Rightarrow>
             (let duplicateNames = count_names allFiles Map.empty {}
              in (map (set_displayName duplicateNames) allFiles,
                  s2\<lparr>cache := (\<lambda>k. if k \<in> set touched
                          then map_option
                                 (\<lambda>e. e\<lparr>ce_data := map (set_displayName duplicateNames) (ce_data e)\<rparr>)
                                 (cache s2 k)
                          else cache s2 k)\<rparr>)))"

text \<open>
  \<open>getFileContent\<close>: here the download URL is "enterprise" when it does not contain
  \<open>github.com\<close>. Every error is wrapped and thrown.
\<close>

definition getFileContent :: "world \<Rightarrow> service \<Rightarrow> string \<Rightarrow> (js_error + string) \<times> service" where
  "getFileContent w s downloadUrl =
     (let isEnterprise = \<not> str_includes downloadUrl ''github.com'';
          (authorization, s1) = createRequestHeaders w s isEnterprise;
          httpsAgent = (if isEnterprise then createHttpsAgent w downloadUrl else None);
          axiosConfig = \<lparr>cfg_authorization = authorization, cfg_withCredentials = isEnterprise,
                         cfg_httpsAgent = httpsAgent\<rparr>
      in case tls_scoped (isEnterprise \<and> allowInsecureEnterpriseCerts w)
                (axios_get_raw w downloadUrl axiosConfig) s1 of
           (Inr body, s2) \<Rightarrow> (Inr body, s2)
         | (Inl error, s2) \<Rightarrow>
             (Inl (Error (''Failed to fetch file content: '' @ error_text error)), s2))"

record file_data =
  fd_content :: string
  fd_download_url :: "string option"
  fd_sha :: string
  fd_size :: nat

definition path_error :: "string \<Rightarrow> js_error \<Rightarrow> js_error" where
  "path_error filePath error =
     Error (''Failed to fetch file content for path \"'' @ filePath @ ''\": '' @ error_text error)"

definition not_a_file :: "string \<Rightarrow> js_error" where
  "not_a_file filePath = Error (''Path \"'' @ filePath @ ''\" is not a file or has no content'')"

text \<open>
  \<open>getFileContentByPath\<close>: one request for the exact path; the inline content is decoded,
  or the download locator is followed with \<open>getFileContent\<close>. Everything thrown inside,
  the failure of the request included, is wrapped and thrown again.
\<close>

definition getFileContentByPath ::
  "world \<Rightarrow> service \<Rightarrow> RepoSource \<Rightarrow> string \<Rightarrow> (js_error + file_data) \<times> service" where
  "getFileContentByPath w s r filePath =
     (let apiUrl = buildApiUrlForPath r filePath;
          isEnterprise = truthy (baseUrl r);
          (authorization, s1) = createRequestHeaders w s isEnterprise;
          httpsAgent = (if isEnterprise then createHttpsAgent w apiUrl else None);
          axiosConfig = \<lparr>cfg_authorization = authorization, cfg_withCredentials = isEnterprise,
                         cfg_httpsAgent = httpsAgent\<rparr>
      in case tls_scoped (isEnterprise \<and> allowInsecureEnterpriseCerts w)
                (axios_get w apiUrl axiosConfig) s1 of
           (Inl error, s2) \<Rightarrow> (Inl (path_error filePath error), s2)
         | (Inr (Listing items), s2) \<Rightarrow> (Inl (path_error filePath (not_a_file filePath)), s2)
         | (Inr (FileObject d), s2) \<Rightarrow>
             if fo_type d = ''file'' \<and> truthy (fo_content d) then
               (case decodeContent w (the (fo_content d))
                       (if truthy (fo_encoding d) then the (fo_encoding d) else ''base64'') of
                  Some content \<Rightarrow>
                    (Inr \<lparr>fd_content = content, fd_download_url = fo_download_url d,
                          fd_sha = fo_sha d, fd_size = fo_size d\<rparr>, s2)
                | None \<Rightarrow> (Inl (path_error filePath (TypeError ''Unknown encoding'')), s2))
             else if fo_type d = ''file'' \<and> truthy (fo_download_url d) then
               (case getFileContent w s2 (the (fo_download_url d)) of
                  (Inr content, s3) \<Rightarrow>
                    (Inr \<lparr>fd_content = content, fd_download_url = fo_download_url d,
                          fd_sha = fo_sha d, fd_size = fo_size d\<rparr>, s3)
                | (Inl error, s3) \<Rightarrow> (Inl (path_error filePath error), s3))
             else (Inl (path_error filePath (not_a_file filePath)), s2))"

text \<open>The three operations that clear the cache.\<close>

definition clearCache :: "service \<Rightarrow> service" where
  "clearCache s = s\<lparr>cache := Map.empty\<rparr>"

definition clearRepoCache :: "service \<Rightarrow> RepoSource \<Rightarrow> service" where
  "clearRepoCache s r =
     s\<lparr>cache := (\<lambda>cacheKey. if prefix (repo_key r @ ''|'') cacheKey then None
                             else cache s cacheKey)\<rparr>"

definition clearCategoryCache :: "service \<Rightarrow> RepoSource \<Rightarrow> CopilotCategory \<Rightarrow> service" where
  "clearCategoryCache s r category = s\<lparr>cache := (cache s)(cache_key r category := None)\<rparr>"

section \<open>githubService.ts: the plugin manifest\<close>

text \<open>
  A property of a parsed value: objects have the properties of the JSON text; an array
  has none of the names the parser asks for.
\<close>

fun get_prop :: "json \<Rightarrow> string \<Rightarrow> json option" where
  "get_prop (JObject kvs) k = map_of kvs k"
| "get_prop (JArray xs) k = None"
| "get_prop JNull k = None"
| "get_prop (JBool b) k = None"
| "get_prop (JNumber n) k = None"
| "get_prop (JString s) k = None"

fun update_prop :: "string \<Rightarrow> json \<Rightarrow> (string \<times> json) list \<Rightarrow> (string \<times> json) list" where
  "update_prop k v [] = [(k, v)]"
| "update_prop k v ((k', v') # kvs) =
     (if k' = k then (k, v) # kvs else (k', v') # update_prop k v kvs)"

text \<open>\<open>!x || typeof x !== 'object'\<close> is false exactly for objects and arrays.\<close>

fun is_object :: "json \<Rightarrow> bool" where
  "is_object (JObject kvs) = True"
| "is_object (JArray xs) = True"
| "is_object JNull = False"
| "is_object (JBool b) = False"
| "is_object (JNumber n) = False"
| "is_object (JString s) = False"

text \<open>\<open>typeof x === 'string' && x.trim()\<close>: a string that is not blank.\<close>

fun nonblank_string :: "json option \<Rightarrow> bool" where
  "nonblank_string (Some (JString s)) = (trim s \<noteq> '''')"
| "nonblank_string (Some JNull) = False"
| "nonblank_string (Some (JBool b)) = False"
| "nonblank_string (Some (JNumber n)) = False"
| "nonblank_string (Some (JArray xs)) = False"
| "nonblank_string (Some (JObject kvs)) = False"
| "nonblank_string None = False"

definition digit_char :: "nat \<Rightarrow> char" where
  "digit_char d = ''0123456789'' ! d"

fun show_nat :: "nat \<Rightarrow> string" where
  "show_nat n =
     (if n < 10 then [digit_char n] else show_nat (n div 10) @ [digit_char (n mod 10)])"

declare show_nat.simps [simp del]

definition allowedKinds :: "string list" where
  "allowedKinds = [''instruction'', ''prompt'', ''agent'', ''skill'']"

definition invalid_format :: "string \<Rightarrow> string" where
  "invalid_format m = ''Invalid plugin.json format: '' @ m"

text \<open>The checks on one entry of \<open>items\<close>; \<open>Some\<close> the message of the error thrown.\<close>

definition validate_item :: "nat \<Rightarrow> json \<Rightarrow> string option" where
  "validate_item index item =
     (if \<not> is_object item then
        Some (invalid_format (''item at index '' @ show_nat index @ '' is not an object''))
      else if \<not> nonblank_string (get_prop item ''path'') then
        Some (invalid_format (''item at index '' @ show_nat index @
                '' is missing or has an invalid \"path\" field''))
      else if \<not> nonblank_string (get_prop item ''kind'') then
        Some (invalid_format (''item at index '' @ show_nat index @
                '' is missing or has an invalid \"kind\" field''))
      else
        (case get_prop item ''kind'' of
           Some (JString kind) \<Rightarrow>
             if kind \<notin> set allowedKinds then
               Some (invalid_format (''item at index '' @ show_nat index @
                       '' has unsupported \"kind\" value \"'' @ kind @ ''\". '' @
                       ''Allowed kinds are: instruction, prompt, agent, skill''))
             else None
         | _ \<Rightarrow> None))"

fun validate_items :: "nat \<Rightarrow> json list \<Rightarrow> string option" where
  "validate_items index [] = None"
| "validate_items index (item # items) =
     (case validate_item index item of
        Some m \<Rightarrow> Some m
      | None \<Rightarrow> validate_items (Suc index) items)"

definition last_segment :: "string \<Rightarrow> string" where
  "last_segment p = rev (takeWhile (\<lambda>c. c \<noteq> CHR ''/'') (rev p))"

text \<open>
  The body of the \<open>try\<close> block after the file has been fetched: \<open>parsed\<close> is what
  \<open>JSON.parse\<close> gave. \<open>Inl\<close> is the message of the error thrown, \<open>Inr\<close> the metadata,
  with \<open>id\<close> derived from the directory when the manifest has no usable one.
\<close>

definition validate_manifest :: "json option \<Rightarrow> string \<Rightarrow> string + json" where
  "validate_manifest parsed pluginDirPath =
     (case parsed of
        None \<Rightarrow> Inl (invalid_format ''not valid JSON'')
      | Some metadata \<Rightarrow>
          if \<not> is_object metadata then
            Inl (invalid_format ''metadata is missing or not an object'')
          else if \<not> nonblank_string (get_prop metadata ''name'') then
            Inl (invalid_format ''missing or invalid \"name\" field'')
          else if \<not> nonblank_string (get_prop metadata ''description'') then
            Inl (invalid_format ''missing or invalid \"description\" field'')
          else
            (case get_prop metadata ''items'' of
               Some (JArray items) \<Rightarrow>
                 (case validate_items 0 items of
                    Some m \<Rightarrow> Inl m
                  | None \<Rightarrow>
                      (case metadata of
                         JObject kvs \<Rightarrow>
                           (case map_of kvs ''id'' of
                              Some (JString i) \<Rightarrow>
                                if i \<noteq> '''' then Inr metadata
                                else Inr (JObject (update_prop ''id''
                                            (JString (last_segment pluginDirPath)) kvs))
                            | _ \<Rightarrow> Inr (JObject (update_prop ''id''
                                          (JString (last_segment pluginDirPath)) kvs)))
                       | _ \<Rightarrow> Inr metadata))
             | _ \<Rightarrow> Inl (invalid_format ''missing or invalid \"items\" array'')))"

record PluginParseResult =
  metadata :: json
  rawContent :: string

text \<open>
  \<open>parsePluginJson\<close>: the manifest is fetched at
  \<open>`${pluginDirPath}/${PLUGIN_JSON_RELATIVE_PATH}`\<close>; every error is thrown again as
  \<open>Failed to parse plugin.json: \<close> followed by its message.
\<close>

definition parsePluginJson ::
  "world \<Rightarrow> service \<Rightarrow> RepoSource \<Rightarrow> string \<Rightarrow> (js_error + PluginParseResult) \<times> service" where
  "parsePluginJson w s r pluginDirPath =
     (let pluginJsonPath = pluginDirPath @ ''/'' @ PLUGIN_JSON_RELATIVE_PATH
      in case getFileContentByPath w s r pluginJsonPath of
           (Inl error, s1) \<Rightarrow>
             (Inl (Error (''Failed to parse plugin.json: '' @ error_message error)), s1)
         | (Inr fileData, s1) \<Rightarrow>
             (case validate_manifest (JSON_parse w (fd_content fileData)) pluginDirPath of
                Inl m \<Rightarrow> (Inl (Error (''Failed to parse plugin.json: '' @ m)), s1)
              | Inr md \<Rightarrow> (Inr \<lparr>metadata = md, rawContent = fd_content fileData\<rparr>, s1)))"

section \<open>extension.ts: downloading a plugin\<close>

text \<open>
  The items of a parsed manifest, \<open>metadata.items ?? []\<close>. After validation every entry
  is an object whose \<open>path\<close> and \<open>kind\<close> are strings.
\<close>

record PluginItem =
  item_path :: string
  item_kind :: string

fun string_prop :: "json \<Rightarrow> string \<Rightarrow> string" where
  "string_prop j k = (case get_prop j k of Some (JString v) \<Rightarrow> v | _ \<Rightarrow> '''')"

definition plugin_items :: "json \<Rightarrow> PluginItem list" where
  "plugin_items md =
     (case get_prop md ''items'' of
        Some (JArray items) \<Rightarrow>
          map (\<lambda>j. \<lparr>item_path = string_prop j ''path'', item_kind = string_prop j ''kind''\<rparr>) items
      | _ \<Rightarrow> [])"

record CopilotItem =
  ci_name :: string
  ci_category :: CopilotCategory
  ci_file :: GitHubFile
  ci_repo :: RepoSource

text \<open>
  The host of the extension: the workspace folder, the answer to the modal confirmation,
  the file system (does a path exist when asked at step \<open>n\<close>, does the operation at step
  \<open>n\<close> throw), \<open>path.join\<close> and \<open>path.dirname\<close>, \<open>JSON.stringify(metadata, null, 2)\<close>,
  \<open>generateNoteContent\<close>, and whether \<open>downloadTracker.recordDownload\<close> throws.
\<close>

datatype fs_event = Mkdir string | Rm string | Write string string

record host =
  workspaceFolder :: "string option"
  confirmDownload :: bool
  existsSync :: "nat \<Rightarrow> string \<Rightarrow> bool"
  fs_fails :: "nat \<Rightarrow> bool"
  path_join :: "string \<Rightarrow> string \<Rightarrow> string"
  path_dirname :: "string \<Rightarrow> string"
  JSON_stringify :: "json \<Rightarrow> string"
  generateNoteContent :: "string \<Rightarrow> string \<Rightarrow> string"
  recordDownload_fails :: bool

text \<open>
  The state of a download: the state of the service, the file-system operations that
  succeeded so far, in order, and the count of the file-system operations tried.
\<close>

record dl_state =
  svc :: service
  fs_log :: "fs_event list"
  fs_tick :: nat

type_synonym 'a action = "dl_state \<Rightarrow> (js_error + 'a) \<times> dl_state"

text \<open>Sequencing: an error thrown by the first action skips the rest.\<close>

definition and_then :: "'a action \<Rightarrow> ('a \<Rightarrow> 'b action) \<Rightarrow> 'b action" where
  "and_then m f st = (case m st of (Inl e, st1) \<Rightarrow> (Inl e, st1) | (Inr x, st1) \<Rightarrow> f x st1)"

definition succeed :: "'a \<Rightarrow> 'a action" where
  "succeed x st = (Inr x, st)"

fun for_each :: "('a \<Rightarrow> unit action) \<Rightarrow> 'a list \<Rightarrow> unit action" where
  "for_each body [] st = (Inr (), st)"
| "for_each body (x # xs) st =
     (case body x st of (Inl e, st1) \<Rightarrow> (Inl e, st1) | (Inr u, st1) \<Rightarrow> for_each body xs st1)"

text \<open>\<open>try { ... } catch { log }\<close>: the error is dropped, the effects stay.\<close>

definition attempt :: "unit action \<Rightarrow> dl_state \<Rightarrow> dl_state" where
  "attempt m st = snd (m st)"

definition fs_existsSync :: "host \<Rightarrow> string \<Rightarrow> bool action" where
  "fs_existsSync h p st = (Inr (existsSync h (fs_tick st) p), st\<lparr>fs_tick := Suc (fs_tick st)\<rparr>)"

definition fs_do :: "host \<Rightarrow> fs_event \<Rightarrow> unit action" where
  "fs_do h ev st =
     (if fs_fails h (fs_tick st) then
        (Inl (Error ''file system error''), st\<lparr>fs_tick := Suc (fs_tick st)\<rparr>)
      else (Inr (), st\<lparr>fs_tick := Suc (fs_tick st), fs_log := fs_log st @ [ev]\<rparr>))"

text \<open>\<open>if (!fs.existsSync(p)) { fs.mkdirSync(p, { recursive: true }); }\<close>\<close>

definition ensure_dir :: "host \<Rightarrow> string \<Rightarrow> unit action" where
  "ensure_dir h p =
     and_then (fs_existsSync h p) (\<lambda>found. if found then succeed () else fs_do h (Mkdir p))"

definition call_getFileContent :: "world \<Rightarrow> string \<Rightarrow> string action" where
  "call_getFileContent w url st =
     (case getFileContent w (svc st) url of (res, s1) \<Rightarrow> (res, st\<lparr>svc := s1\<rparr>))"

definition call_getFileContentByPath :: "world \<Rightarrow> RepoSource \<Rightarrow> string \<Rightarrow> file_data action" where
  "call_getFileContentByPath w r p st =
     (case getFileContentByPath w (svc st) r p of (res, s1) \<Rightarrow> (res, st\<lparr>svc := s1\<rparr>))"

definition call_getDirectoryContents :: "world \<Rightarrow> RepoSource \<Rightarrow> string \<Rightarrow> (GitHubFile list) action" where
  "call_getDirectoryContents w r p st =
     (directoryContents w (tick (svc st)) r p,
      st\<lparr>svc := (svc st)\<lparr>tick := Suc (tick (svc st))\<rparr>\<rparr>)"

text \<open>\<open>p.split('/').pop() || p\<close>\<close>

definition last_segment_or :: "string \<Rightarrow> string" where
  "last_segment_or p = (if last_segment p \<noteq> '''' then last_segment p else p)"

definition count_files :: "GitHubFile list \<Rightarrow> nat" where
  "count_files contents = length (filter (\<lambda>f. f_type f = ''file'') contents)"

text \<open>One file of a skill directory, written under the relative path it has there.\<close>

definition write_skill_file :: "host \<Rightarrow> world \<Rightarrow> string \<Rightarrow> string \<Rightarrow> GitHubFile \<Rightarrow> unit action" where
  "write_skill_file h w targetSkillPath itemPath fileItem =
     (if f_type fileItem = ''file'' then
        (let skillFolderPath = (if suffix ''/'' itemPath then itemPath else itemPath @ ''/'');
             relativePath = (if prefix skillFolderPath (f_path fileItem)
                             then drop (length skillFolderPath) (f_path fileItem)
                             else f_path fileItem);
             targetFilePath = path_join h targetSkillPath relativePath
         in and_then (ensure_dir h (path_dirname h targetFilePath)) (\<lambda>u.
            and_then (call_getFileContent w (f_download_url fileItem)) (\<lambda>content.
            fs_do h (Write targetFilePath content))))
      else succeed ())"

text \<open>One file of a directory reference, written flat into the category folder.\<close>

definition write_flat_file :: "host \<Rightarrow> world \<Rightarrow> string \<Rightarrow> GitHubFile \<Rightarrow> unit action" where
  "write_flat_file h w fullCategoryPath fileItem =
     (if f_type fileItem = ''file'' then
        and_then (call_getFileContent w (f_download_url fileItem)) (\<lambda>content.
        fs_do h (Write (path_join h fullCategoryPath (f_name fileItem)) content))
      else succeed ())"

text \<open>
  The body of the \<open>try\<close> block for one item whose kind has a category. It returns the
  line pushed to \<open>downloadedFiles\<close>; an error thrown anywhere ends it.
\<close>

definition download_plugin_item ::
  "host \<Rightarrow> world \<Rightarrow> RepoSource \<Rightarrow> string \<Rightarrow> PluginItem \<Rightarrow> CopilotCategory \<Rightarrow> string action" where
  "download_plugin_item h w r fsPath pluginItem category =
     (let fullCategoryPath = path_join h fsPath (FOLDER_PATHS category)
      in and_then (ensure_dir h fullCategoryPath) (\<lambda>u.
         if item_kind pluginItem = ''skill'' then
           (let skillDirName = last_segment_or (item_path pluginItem);
                targetSkillPath = path_join h fullCategoryPath skillDirName
            in and_then (fs_existsSync h targetSkillPath) (\<lambda>found.
               and_then (if found then fs_do h (Rm targetSkillPath) else succeed ()) (\<lambda>u.
               and_then (fs_do h (Mkdir targetSkillPath)) (\<lambda>u.
               and_then (call_getDirectoryContents w r (item_path pluginItem)) (\<lambda>contents.
               and_then (for_each (write_skill_file h w targetSkillPath (item_path pluginItem)) contents) (\<lambda>u.
               succeed (item_kind pluginItem @ '': '' @ skillDirName @ '' ('' @
                        show_nat (count_files contents) @ '' files)'')))))))
         else
           (let lastSegment = last_segment_or (item_path pluginItem);
                isDirectoryRef = \<not> str_includes lastSegment ''.''
            in if isDirectoryRef then
                 and_then (call_getDirectoryContents w r (item_path pluginItem)) (\<lambda>contents.
                 and_then (for_each (write_flat_file h w fullCategoryPath) contents) (\<lambda>u.
                 succeed (item_kind pluginItem @ '': '' @ lastSegment @ ''/ ('' @
                          show_nat (count_files contents) @ '' files)'')))
               else
                 and_then (call_getFileContentByPath w r (item_path pluginItem)) (\<lambda>fileData.
                 and_then (fs_do h (Write (path_join h fullCategoryPath lastSegment) (fd_content fileData))) (\<lambda>u.
                 succeed (item_kind pluginItem @ '': '' @ lastSegment))))))"

record counters =
  downloadedCount :: nat
  errorCount :: nat
  downloadedFiles :: "string list"
  failedFiles :: "string list"

definition no_counts :: counters where
  "no_counts = \<lparr>downloadedCount = 0, errorCount = 0, downloadedFiles = [], failedFiles = []\<rparr>"

text \<open>
  The loop over the items of the manifest. An item whose kind has no category is
  counted as failed and skipped; otherwise the item is downloaded, and the \<open>catch\<close>
  clause counts the item as failed when anything was thrown.
\<close>

fun plugin_items_loop ::
  "host \<Rightarrow> world \<Rightarrow> RepoSource \<Rightarrow> string \<Rightarrow> PluginItem list \<Rightarrow> counters \<Rightarrow> dl_state \<Rightarrow> counters \<times> dl_state" where
  "plugin_items_loop h w r fsPath [] c st = (c, st)"
| "plugin_items_loop h w r fsPath (pluginItem # rest) c st =
     (case KIND_TO_CATEGORY (item_kind pluginItem) of
        None \<Rightarrow>
          plugin_items_loop h w r fsPath rest
            (c\<lparr>failedFiles := failedFiles c @
                  [item_path pluginItem @ '' (unknown kind: '' @ item_kind pluginItem @ '')''],
               errorCount := errorCount c + 1\<rparr>) st
      | Some category \<Rightarrow>
          (case download_plugin_item h w r fsPath pluginItem category st of
             (Inr line, st1) \<Rightarrow>
               plugin_items_loop h w r fsPath rest
                 (c\<lparr>downloadedFiles := downloadedFiles c @ [line],
                    downloadedCount := downloadedCount c + 1\<rparr>) st1
           | (Inl itemError, st1) \<Rightarrow>
               plugin_items_loop h w r fsPath rest
                 (c\<lparr>failedFiles := failedFiles c @ [item_path pluginItem],
                    errorCount := errorCount c + 1\<rparr>) st1))"

text \<open>
  For the statement of the accounting: whether each item, met in the state the loop
  has reached, is downloaded (\<open>True\<close>) or fails (\<open>False\<close>).
\<close>

definition item_downloads :: "host \<Rightarrow> world \<Rightarrow> RepoSource \<Rightarrow> string \<Rightarrow> PluginItem \<Rightarrow> dl_state \<Rightarrow> bool \<times> dl_state" where
  "item_downloads h w r fsPath pluginItem st =
     (case KIND_TO_CATEGORY (item_kind pluginItem) of
        None \<Rightarrow> (False, st)
      | Some category \<Rightarrow>
          (case download_plugin_item h w r fsPath pluginItem category st of
             (Inr line, st1) \<Rightarrow> (True, st1)
           | (Inl itemError, st1) \<Rightarrow> (False, st1)))"

fun item_outcomes :: "host \<Rightarrow> world \<Rightarrow> RepoSource \<Rightarrow> string \<Rightarrow> PluginItem list \<Rightarrow> dl_state \<Rightarrow> bool list" where
  "item_outcomes h w r fsPath [] st = []"
| "item_outcomes h w r fsPath (pluginItem # rest) st =
     (case item_downloads h w r fsPath pluginItem st of
        (ok, st1) \<Rightarrow> ok # item_outcomes h w r fsPath rest st1)"

text \<open>The paths of the items that fail, in the order of the manifest.\<close>

definition failed_paths :: "PluginItem list \<Rightarrow> bool list \<Rightarrow> string list" where
  "failed_paths items oks = map (item_path \<circ> fst) (filter (\<lambda>p. \<not> snd p) (zip items oks))"

text \<open>\<open>metadata.id || item.name\<close>\<close>

definition plugin_id :: "json \<Rightarrow> CopilotItem \<Rightarrow> string" where
  "plugin_id md item =
     (case get_prop md ''id'' of
        Some (JString i) \<Rightarrow> if i \<noteq> '''' then i else ci_name item
      | _ \<Rightarrow> ci_name item)"

definition NOTE_FILE :: string where
  "NOTE_FILE = ''NOTE.VSCODE-VSCODE-GIT-COPILOT-TOOLS-EXTENSION.md''"

text \<open>The copy of the manifest, in its own \<open>try\<close> block.\<close>

definition save_plugin_json :: "host \<Rightarrow> string \<Rightarrow> json \<Rightarrow> unit action" where
  "save_plugin_json h pluginDir md =
     (let pluginJsonDir = path_join h (path_join h pluginDir ''.github'') ''plugin''
      in and_then (ensure_dir h pluginJsonDir) (\<lambda>u.
         fs_do h (Write (path_join h pluginJsonDir ''plugin.json'') (JSON_stringify h md))))"

text \<open>
  The files below a directory \<open>d\<close> of the plugin (\<open>agents\<close>, \<open>commands\<close>), each copied
  in its own \<open>try\<close> block.
\<close>

definition copy_subdir_file :: "host \<Rightarrow> world \<Rightarrow> string \<Rightarrow> GitHubFile \<Rightarrow> GitHubFile \<Rightarrow> unit action" where
  "copy_subdir_file h w localDir d file st =
     (Inr (),
      attempt
        (let relativePath = drop (length (f_path d) + 1) (f_path file);
             targetFilePath = path_join h localDir relativePath
         in and_then (ensure_dir h (path_dirname h targetFilePath)) (\<lambda>u.
            and_then (call_getFileContent w (f_download_url file)) (\<lambda>content.
            fs_do h (Write targetFilePath content)))) st)"

definition copy_subdir ::
  "host \<Rightarrow> world \<Rightarrow> string \<Rightarrow> string \<Rightarrow> GitHubFile list \<Rightarrow> GitHubFile list \<Rightarrow> unit action" where
  "copy_subdir h w pluginDir dirName topLevelItems pluginContents =
     (case find (\<lambda>f. f_type f = ''dir'' \<and> f_name f = dirName) topLevelItems of
        None \<Rightarrow> succeed ()
      | Some d \<Rightarrow>
          (let localDir = path_join h pluginDir dirName
           in and_then (ensure_dir h localDir) (\<lambda>u.
              for_each (copy_subdir_file h w localDir d)
                (filter (\<lambda>f. f_type f = ''file'' \<and> prefix (f_path d @ ''/'') (f_path f))
                   pluginContents))))"

text \<open>
  The second \<open>try\<close> block after the loop: the directories \<open>agents\<close> and \<open>commands\<close>, the
  README when the plugin has one, and the generated note.
\<close>

definition find_readme :: "GitHubFile list \<Rightarrow> GitHubFile option" where
  "find_readme topLevelItems = find (\<lambda>f. f_type f = ''file'' \<and> f_name f = ''README.md'') topLevelItems"

definition save_readme :: "host \<Rightarrow> world \<Rightarrow> string \<Rightarrow> GitHubFile list \<Rightarrow> string action" where
  "save_readme h w pluginDir topLevelItems st =
     (case find_readme topLevelItems of
        None \<Rightarrow> (Inr '''', st)
      | Some readmeFile \<Rightarrow>
          (case call_getFileContent w (f_download_url readmeFile) st of
             (Inl e, st1) \<Rightarrow> (Inr '''', st1)
           | (Inr readmeContent, st1) \<Rightarrow>
               (case fs_do h (Write (path_join h pluginDir ''README.md'') readmeContent) st1 of
                  (Inl e, st2) \<Rightarrow> (Inr readmeContent, st2)
                | (Inr u, st2) \<Rightarrow> (Inr readmeContent, st2))))"

text \<open>The direct children of the plugin directory among its contents.\<close>

definition top_level_items :: "CopilotItem \<Rightarrow> GitHubFile list \<Rightarrow> GitHubFile list" where
  "top_level_items item pluginContents =
     filter (\<lambda>f. \<not> str_includes (drop (length (f_path (ci_file item)) + 1) (f_path f)) ''/'')
       pluginContents"

definition save_plugin_files :: "host \<Rightarrow> world \<Rightarrow> CopilotItem \<Rightarrow> string \<Rightarrow> json \<Rightarrow> unit action" where
  "save_plugin_files h w item pluginDir md =
     and_then (call_getDirectoryContents w (ci_repo item) (f_path (ci_file item))) (\<lambda>pluginContents.
       (let topLevelItems = top_level_items item pluginContents
        in and_then (copy_subdir h w pluginDir ''agents'' topLevelItems pluginContents) (\<lambda>u.
           and_then (copy_subdir h w pluginDir ''commands'' topLevelItems pluginContents) (\<lambda>u.
           and_then (save_readme h w pluginDir topLevelItems) (\<lambda>readmeContent.
           fs_do h (Write (path_join h pluginDir NOTE_FILE)
                     (generateNoteContent h readmeContent (plugin_id md item))))))))"

text \<open>
  What the user sees at the end of the plugin branch of \<open>downloadCopilotItem\<close>: one of
  the early returns, the error message of the outer \<open>catch\<close>, or the summary with the
  counters and the number of items.
\<close>

datatype download_outcome =
    NoWorkspaceFolder
  | MetadataUnreadable js_error
  | NoItems
  | NotConfirmed
  | DownloadFailed js_error
  | Summary counters nat

text \<open>
  The branch of \<open>downloadCopilotItem\<close> for an item of category \<open>plugins\<close> whose file is a
  directory.
\<close>

definition downloadPlugin :: "host \<Rightarrow> world \<Rightarrow> CopilotItem \<Rightarrow> dl_state \<Rightarrow> download_outcome \<times> dl_state" where
  "downloadPlugin h w item st =
     (case workspaceFolder h of
        None \<Rightarrow> (NoWorkspaceFolder, st)
      | Some fsPath \<Rightarrow>
          (let fullTargetPath = path_join h fsPath (FOLDER_PATHS (ci_category item))
           in case parsePluginJson w (svc st) (ci_repo item) (f_path (ci_file item)) of
                (Inl error, s1) \<Rightarrow> (MetadataUnreadable error, st\<lparr>svc := s1\<rparr>)
              | (Inr pluginResult, s1) \<Rightarrow>
                  (let md = metadata pluginResult;
                       pluginItems = plugin_items md;
                       st1 = st\<lparr>svc := s1\<rparr>
                   in if pluginItems = [] then (NoItems, st1)
                      else if \<not> confirmDownload h then (NotConfirmed, st1)
                      else
                        (case plugin_items_loop h w (ci_repo item) fsPath pluginItems no_counts st1 of
                           (c, st2) \<Rightarrow>
                             (let pluginDir = path_join h fullTargetPath (plugin_id md item)
                              in case ensure_dir h pluginDir st2 of
                                   (Inl error, st3) \<Rightarrow> (DownloadFailed error, st3)
                                 | (Inr u, st3) \<Rightarrow>
                                     (let st4 = attempt (save_plugin_json h pluginDir md) st3;
                                          st5 = attempt (save_plugin_files h w item pluginDir md) st4
                                      in if recordDownload_fails h then
                                           (DownloadFailed (Error ''recordDownload failed''), st5)
                                         else
                                           (Summary c (length pluginItems),
                                            st5\<lparr>svc := clearCategoryCache (svc st5) (ci_repo item)
                                                          (ci_category item)\<rparr>)))))))"

section \<open>Notions used in the statements\<close>

text \<open>A recorded request \<open>q\<close> is the one that produced the result \<open>res\<close>.\<close>

definition answered :: "request \<Rightarrow> (js_error + 'a) \<Rightarrow> bool" where
  "answered q res = (case res of Inl e \<Rightarrow> req_error q = Some e | Inr d \<Rightarrow> req_error q = None)"

text \<open>The requests a call added to the record of the state it started from.\<close>

definition new_requests :: "service \<Rightarrow> service \<Rightarrow> request list" where
  "new_requests s s' = drop (length (requests s)) (requests s')"

text \<open>The entry type a category lists: directories for skills and plugins, files otherwise.\<close>

definition listed_type :: "CopilotCategory \<Rightarrow> string" where
  "listed_type c = (if c = Skills \<or> c = Plugins then ''dir'' else ''file'')"

text \<open>
  The invariant of the cache: an entry sits under a key that ends in the name of its
  category, and holds only entries of the type that category lists, each with the
  repository it came from. The cache of a new service is empty, and only \<open>getFiles\<close>,
  \<open>getFilesByRepo\<close> and the three clearing operations write it.
\<close>

definition entry_ok :: "CopilotCategory \<Rightarrow> GitHubFile \<Rightarrow> bool" where
  "entry_ok c f = (f_type f = listed_type c \<and> f_repo f \<noteq> None)"

definition cache_ok :: "service \<Rightarrow> bool" where
  "cache_ok s =
     (\<forall>k e. cache s k = Some e \<longrightarrow>
        suffix (''|'' @ category_value (ce_category e)) k \<and>
        (\<forall>f \<in> set (ce_data e). entry_ok (ce_category e) f))"

text \<open>
  For a plugin download started in state \<open>st\<close>: the metadata that \<open>parsePluginJson\<close>
  returns, the state after that call, and the local directory of the plugin.
\<close>

definition plugin_manifest :: "world \<Rightarrow> CopilotItem \<Rightarrow> dl_state \<Rightarrow> json" where
  "plugin_manifest w item st =
     (case fst (parsePluginJson w (svc st) (ci_repo item) (f_path (ci_file item))) of
        Inr pluginResult \<Rightarrow> metadata pluginResult
      | Inl e \<Rightarrow> JNull)"

definition after_manifest :: "world \<Rightarrow> CopilotItem \<Rightarrow> dl_state \<Rightarrow> dl_state" where
  "after_manifest w item st =
     st\<lparr>svc := snd (parsePluginJson w (svc st) (ci_repo item) (f_path (ci_file item)))\<rparr>"

definition plugin_dir :: "host \<Rightarrow> json \<Rightarrow> CopilotItem \<Rightarrow> string" where
  "plugin_dir h md item =
     path_join h (path_join h (the (workspaceFolder h)) (FOLDER_PATHS (ci_category item)))
       (plugin_id md item)"

definition plugin_json_path :: "host \<Rightarrow> string \<Rightarrow> string" where
  "plugin_json_path h pluginDir =
     path_join h (path_join h (path_join h pluginDir ''.github'') ''plugin'') ''plugin.json''"

text \<open>A new service instance in a process that has not set the TLS variable.\<close>

definition init_service :: service where
  "init_service = \<lparr>cache = Map.empty, tls_env = None, requests = [], tick = 0\<rparr>"

section \<open>Concrete worlds for the witnesses\<close>

text \<open>
  A world without authentication in which every request ends in a 404, the default
  public repository, and a world whose listings hold one file and one directory.
\<close>

definition not_found_error :: js_error where
  "not_found_error = AxiosError (Some 404) False False ''Request failed with status code 404''"

definition quiet_world :: world where
  "quiet_world =
     \<lparr>enableGithubAuth = False, allowInsecureEnterpriseCerts = False, enterpriseToken = None,
      getSession = (\<lambda>n c. NoSession), signInChosen = (\<lambda>n. False),
      http_get = (\<lambda>n url. Inl not_found_error),
      http_raw = (\<lambda>n url. Inl not_found_error),
      date_now = (\<lambda>n. 0),
      decodeContent = (\<lambda>c e. Some c), JSON_parse = (\<lambda>t. None),
      directoryContents = (\<lambda>n r p. Inl not_found_error)\<rparr>"

definition public_repo :: RepoSource where
  "public_repo = \<lparr>owner = ''github'', repo = ''awesome-copilot'', label = None,
     baseUrl = None, folderMappings = None\<rparr>"

definition entry :: "string \<Rightarrow> string \<Rightarrow> string \<Rightarrow> GitHubFile" where
  "entry n p t = \<lparr>f_name = n, f_path = p, f_download_url = ''https://raw.githubusercontent.com/'' @ p,
     f_size = 1, f_type = t, f_sha = None, f_repo = None, f_displayName = None\<rparr>"

definition mixed_world :: world where
  "mixed_world = quiet_world\<lparr>http_get := (\<lambda>n url.
      Inr (Listing [entry ''README.md'' ''x/README.md'' ''file'', entry ''my-skill'' ''x/my-skill'' ''dir'']))\<rparr>"

text \<open>
  An enterprise repository, and a world in which the insecure-certificates setting is
  on and every request to the API times out.
\<close>


definition timeout_error :: js_error where
  "timeout_error = AxiosError None False False ''timeout of 10000ms exceeded''"

definition enterprise_repo :: RepoSource where
  "enterprise_repo = \<lparr>owner = ''acme'', repo = ''copilot-config'', label = None,
     baseUrl = Some ''https://ghe.example.com'', folderMappings = None\<rparr>"

definition insecure_world :: world where
  "insecure_world = quiet_world\<lparr>allowInsecureEnterpriseCerts := True,
     http_get := (\<lambda>n url. Inl timeout_error)\<rparr>"

text \<open>
  A service whose cache holds one entry for the agents of the public repository,
  written at time 0; worlds in which an hour has passed; a repository that excludes
  agents; a world that answers every request with 401 and whose user signs in again;
  a world with a fresh listing.
\<close>

definition stale_entry :: CacheEntry where
  "stale_entry =
     \<lparr>ce_data = [(entry ''old.agent.md'' ''agents/old.agent.md'' ''file'')\<lparr>f_repo := Some public_repo\<rparr>],
      ce_timestamp = 0, ce_category = Agents, ce_repo = public_repo\<rparr>"

definition stale_service :: service where
  "stale_service = init_service\<lparr>cache := [cache_key public_repo Agents \<mapsto> stale_entry]\<rparr>"

definition late_world :: world where
  "late_world = quiet_world\<lparr>date_now := (\<lambda>n. 3600000)\<rparr>"

definition excluded_repo :: RepoSource where
  "excluded_repo = public_repo\<lparr>folderMappings := Some [Agents \<mapsto> MNull]\<rparr>"

definition unauthorized_error :: js_error where
  "unauthorized_error = AxiosError (Some 401) False False ''Request failed with status code 401''"

definition reauth_world :: world where
  "reauth_world = quiet_world\<lparr>enableGithubAuth := True,
     getSession := (\<lambda>n createIfNone. if createIfNone then Session ''token'' else NoSession),
     signInChosen := (\<lambda>n. True),
     http_get := (\<lambda>n url. Inl unauthorized_error),
     date_now := (\<lambda>n. 3600000)\<rparr>"

definition fresh_world :: world where
  "fresh_world = quiet_world\<lparr>date_now := (\<lambda>n. 3600000),
     http_get := (\<lambda>n url. Inr (Listing [entry ''new.agent.md'' ''agents/new.agent.md'' ''file'']))\<rparr>"

text \<open>Two repositories that both hold a file \<open>x.md\<close>.\<close>

definition alice_repo :: RepoSource where
  "alice_repo = \<lparr>owner = ''alice'', repo = ''tools'', label = None, baseUrl = None,
     folderMappings = None\<rparr>"

definition bob_repo :: RepoSource where
  "bob_repo = \<lparr>owner = ''bob'', repo = ''kit'', label = None, baseUrl = None,
     folderMappings = None\<rparr>"

definition two_repo_world :: world where
  "two_repo_world = quiet_world\<lparr>http_get := (\<lambda>n url.
     if url = ''https://api.github.com/repos/alice/tools/contents/instructions'' then
       Inr (Listing [entry ''x.md'' ''instructions/x.md'' ''file'',
                     entry ''a.md'' ''instructions/a.md'' ''file''])
     else if url = ''https://api.github.com/repos/bob/kit/contents/instructions'' then
       Inr (Listing [entry ''x.md'' ''instructions/x.md'' ''file''])
     else Inl not_found_error)\<rparr>"

text \<open>
  A world in which the user has switched on \<open>allowInsecureEnterpriseCerts\<close>; a source
  whose \<open>baseUrl\<close> names the public API host; and the address from which the public
  host serves the body of a file.
\<close>

definition opted_in_world :: world where
  "opted_in_world = quiet_world\<lparr>allowInsecureEnterpriseCerts := True\<rparr>"

definition public_as_enterprise :: RepoSource where
  "public_as_enterprise = public_repo\<lparr>baseUrl := Some ''https://api.github.com''\<rparr>"

definition public_raw_url :: string where
  "public_raw_url = ''https://raw.githubusercontent.com/github/awesome-copilot/main/agents/x.agent.md''"

text \<open>
  Two manifests in the shorthand form, with the text they are parsed from, and a world
  that serves a manifest: the Contents API answers with the file, and \<open>JSON.parse\<close> of
  its text gives the value.
\<close>

definition skills_only_text :: string where
  "skills_only_text =
     ''{\"name\":\"Skills Only Plugin\",\"description\":\"A plugin with only skills\",'' @
     ''\"skills\":[\"./skills/my-skill\"]}''"

definition skills_only_manifest :: json where
  "skills_only_manifest =
     JObject [(''name'', JString ''Skills Only Plugin''),
              (''description'', JString ''A plugin with only skills''),
              (''skills'', JArray [JString ''./skills/my-skill''])]"

definition foo_text :: string where
  "foo_text = ''{\"name\":\"foo\",\"description\":\"The foo plugin\",\"skills\":[\"./skills/bar/\"]}''"

definition foo_manifest :: json where
  "foo_manifest =
     JObject [(''name'', JString ''foo''), (''description'', JString ''The foo plugin''),
              (''skills'', JArray [JString ''./skills/bar/''])]"

definition manifest_world :: "string \<Rightarrow> json \<Rightarrow> world" where
  "manifest_world content parsed =
     quiet_world\<lparr>
       http_get := (\<lambda>n url. Inr (FileObject
          \<lparr>fo_type = ''file'', fo_content = Some content, fo_encoding = Some ''utf8'',
           fo_download_url = None, fo_sha = ''abc123'', fo_size = length content\<rparr>)),
       JSON_parse := (\<lambda>t. if t = content then Some parsed else None)\<rparr>"

section \<open>Notions and a concrete plugin for the download\<close>

text \<open>
  For the download of a plugin: a later state of the download has every event of the
  log of an earlier one, and its file-system clock has not gone back.
\<close>

definition fs_extends :: "dl_state \<Rightarrow> dl_state \<Rightarrow> bool" where
  "fs_extends st st' = (set (fs_log st) \<subseteq> set (fs_log st') \<and> fs_tick st \<le> fs_tick st')"

text \<open>An action only ever adds to the log and advances the clock.\<close>

definition log_grows :: "'a action \<Rightarrow> bool" where
  "log_grows m = (\<forall>st. fs_extends st (snd (m st)))"

text \<open>No file-system operation throws from step \<open>k0\<close> on.\<close>

definition fs_reliable_from :: "host \<Rightarrow> nat \<Rightarrow> bool" where
  "fs_reliable_from h k0 = (\<forall>k \<ge> k0. \<not> fs_fails h k)"

text \<open>The state in which the loop over the items of the manifest ends.\<close>

definition after_items :: "host \<Rightarrow> world \<Rightarrow> CopilotItem \<Rightarrow> dl_state \<Rightarrow> dl_state" where
  "after_items h w item st =
     snd (plugin_items_loop h w (ci_repo item) (the (workspaceFolder h))
            (plugin_items (plugin_manifest w item st)) no_counts (after_manifest w item st))"

text \<open>
  A plugin \<open>kit\<close> with five items, each a single file; the request for the third one
  times out. The plugin directory holds a README.
\<close>

definition kit_text :: string where
  "kit_text = ''{\"name\":\"kit\",\"description\":\"A starter kit\",\"items\":[...]}''"

definition kit_manifest :: json where
  "kit_manifest =
     JObject [(''name'', JString ''kit''), (''description'', JString ''A starter kit''),
       (''items'', JArray
          [JObject [(''path'', JString ''instructions/style.instructions.md''),
                    (''kind'', JString ''instruction'')],
           JObject [(''path'', JString ''prompts/review.prompt.md''), (''kind'', JString ''prompt'')],
           JObject [(''path'', JString ''prompts/broken.prompt.md''), (''kind'', JString ''prompt'')],
           JObject [(''path'', JString ''agents/helper.agent.md''), (''kind'', JString ''agent'')],
           JObject [(''path'', JString ''prompts/test.prompt.md''), (''kind'', JString ''prompt'')]])]"

definition inline_file :: "string \<Rightarrow> file_object" where
  "inline_file content =
     \<lparr>fo_type = ''file'', fo_content = Some content, fo_encoding = Some ''base64'',
      fo_download_url = None, fo_sha = ''abc123'', fo_size = length content\<rparr>"

definition kit_world :: world where
  "kit_world =
     quiet_world\<lparr>
       http_get := (\<lambda>n url.
          if url = ''https://api.github.com/repos/github/awesome-copilot/contents/prompts/broken.prompt.md''
          then Inl timeout_error
          else if url = ''https://api.github.com/repos/github/awesome-copilot/contents/plugins/kit/.github/plugin/plugin.json''
          then Inr (FileObject (inline_file kit_text))
          else Inr (FileObject (inline_file ''# item''))),
       http_raw := (\<lambda>n url. Inr ''# kit''),
       JSON_parse := (\<lambda>t. if t = kit_text then Some kit_manifest else None),
       directoryContents := (\<lambda>n r p. Inr [entry ''README.md'' ''plugins/kit/README.md'' ''file''])\<rparr>"

definition kit_host :: host where
  "kit_host =
     \<lparr>workspaceFolder = Some ''/ws'', confirmDownload = True,
      existsSync = (\<lambda>n p. False), fs_fails = (\<lambda>n. False),
      path_join = (\<lambda>a b. a @ ''/'' @ b),
      path_dirname = (\<lambda>p. rev (tl (dropWhile (\<lambda>c. c \<noteq> CHR ''/'') (rev p)))),
      JSON_stringify = (\<lambda>j. ''<plugin.json>''),
      generateNoteContent = (\<lambda>readme pluginName. ''note for '' @ pluginName @ '': '' @ readme),
      recordDownload_fails = False\<rparr>"

definition kit_item :: CopilotItem where
  "kit_item = \<lparr>ci_name = ''kit'', ci_category = Plugins,
     ci_file = entry ''kit'' ''plugins/kit'' ''dir'', ci_repo = public_repo\<rparr>"

definition kit_start :: dl_state where
  "kit_start = \<lparr>svc = init_service, fs_log = [], fs_tick = 0\<rparr>"

section \<open>The path resolver\<close>

lemma trim_root: "trim ''root'' = ''root''"
  by (simp add: trim_def is_ws_def)



section \<open>What the parts of a request leave unchanged\<close>

lemma ask_session_frame [simp]:
  "cache (snd (ask_session w s c)) = cache s"
  "tls_env (snd (ask_session w s c)) = tls_env s"
  "requests (snd (ask_session w s c)) = requests s"
  by (simp_all add: ask_session_def)

lemma ask_dialog_frame [simp]:
  "cache (snd (ask_dialog w s)) = cache s"
  "tls_env (snd (ask_dialog w s)) = tls_env s"
  "requests (snd (ask_dialog w s)) = requests s"
  by (simp_all add: ask_dialog_def)

lemma ensureGitHubAuth_frame [simp]:
  "cache (snd (ensureGitHubAuth w s e)) = cache s"
  "tls_env (snd (ensureGitHubAuth w s e)) = tls_env s"
  "requests (snd (ensureGitHubAuth w s e)) = requests s"
  by (simp_all add: ensureGitHubAuth_def ask_session_def ask_dialog_def
      split: session_result.split bool.split)

lemma checkAuthentication_frame [simp]:
  "cache (snd (checkAuthentication w s)) = cache s"
  "tls_env (snd (checkAuthentication w s)) = tls_env s"
  "requests (snd (checkAuthentication w s)) = requests s"
  by (simp_all add: checkAuthentication_def ask_session_def split: session_result.split)

lemma handleAuthError_frame [simp]:
  "cache (snd (handleAuthError w s err e)) = cache s"
  "tls_env (snd (handleAuthError w s err e)) = tls_env s"
  "requests (snd (handleAuthError w s err e)) = requests s"
  by (simp_all add: handleAuthError_def ask_dialog_def split: js_error.split bool.split)

lemma createRequestHeaders_frame [simp]:
  "cache (snd (createRequestHeaders w s e)) = cache s"
  "tls_env (snd (createRequestHeaders w s e)) = tls_env s"
  "requests (snd (createRequestHeaders w s e)) = requests s"
  by (simp_all add: createRequestHeaders_def ask_session_def split: session_result.split)

lemma proactive_auth_frame [simp]:
  "cache (proactive_auth w s b) = cache s"
  "tls_env (proactive_auth w s b) = tls_env s"
  "requests (proactive_auth w s b) = requests s"
proof -
  obtain b' sa where h: "checkAuthentication w s = (b', sa)"
    by (cases "checkAuthentication w s")
  have "cache sa = cache s" "tls_env sa = tls_env s" "requests sa = requests s"
    using checkAuthentication_frame [of w s] h by simp_all
  then show "cache (proactive_auth w s b) = cache s"
    "tls_env (proactive_auth w s b) = tls_env s"
    "requests (proactive_auth w s b) = requests s"
    using h by (simp_all add: proactive_auth_def split: bool.split)
qed

text \<open>Only a 401 or a 403 makes \<open>handleAuthError\<close> answer \<open>true\<close>.\<close>

lemma handleAuthError_retry:
  "fst (handleAuthError w s err e) \<Longrightarrow> error_status err = Some 401 \<or> error_status err = Some 403"
  by (cases err) (auto simp: handleAuthError_def split: if_splits)

section \<open>The scoped relaxation of certificate validation\<close>

lemma tls_scoped_restores: "tls_env (snd (tls_scoped True request s)) = tls_env s"
  by (simp add: tls_scoped_def Let_def split: prod.split option.split)

lemma tls_scoped_axios_get [simp]:
  "fst (tls_scoped relax (axios_get w url cfg) s) = http_get w (tick s) url"
  "cache (snd (tls_scoped relax (axios_get w url cfg) s)) = cache s"
  "tls_env (snd (tls_scoped relax (axios_get w url cfg) s)) = tls_env s"
  "requests (snd (tls_scoped relax (axios_get w url cfg) s)) =
     requests s @ [\<lparr>req_url = url, req_config = cfg,
       req_tls_env = (if relax then Some ''0'' else tls_env s),
       req_error = (case http_get w (tick s) url of Inl e \<Rightarrow> Some e | Inr d \<Rightarrow> None)\<rparr>]"
  by (simp_all add: tls_scoped_def axios_get_def Let_def split: option.split)

lemma tls_scoped_axios_get_raw [simp]:
  "fst (tls_scoped relax (axios_get_raw w url cfg) s) = http_raw w (tick s) url"
  "cache (snd (tls_scoped relax (axios_get_raw w url cfg) s)) = cache s"
  "tls_env (snd (tls_scoped relax (axios_get_raw w url cfg) s)) = tls_env s"
  "requests (snd (tls_scoped relax (axios_get_raw w url cfg) s)) =
     requests s @ [\<lparr>req_url = url, req_config = cfg,
       req_tls_env = (if relax then Some ''0'' else tls_env s),
       req_error = (case http_raw w (tick s) url of Inl e \<Rightarrow> Some e | Inr d \<Rightarrow> None)\<rparr>]"
  by (simp_all add: tls_scoped_def axios_get_raw_def Let_def split: option.split)

lemma tls_scoped_axios_get_result:
  assumes "tls_scoped relax (axios_get w url cfg) s = (res, s')"
  shows "cache s' = cache s \<and> tls_env s' = tls_env s \<and>
         (\<exists>q. requests s' = requests s @ [q] \<and> answered q res \<and> req_url q = url)"
proof -
  have "res = fst (tls_scoped relax (axios_get w url cfg) s)"
    "s' = snd (tls_scoped relax (axios_get w url cfg) s)"
    using assms by simp_all
  then show ?thesis
    by (simp add: answered_def split: sum.split)
qed

lemma tls_scoped_axios_get_raw_result:
  assumes "tls_scoped relax (axios_get_raw w url cfg) s = (res, s')"
  shows "cache s' = cache s \<and> tls_env s' = tls_env s \<and>
         (\<exists>q. requests s' = requests s @ [q] \<and> answered q res \<and> req_url q = url)"
proof -
  have "res = fst (tls_scoped relax (axios_get_raw w url cfg) s)"
    "s' = snd (tls_scoped relax (axios_get_raw w url cfg) s)"
    using assms by simp_all
  then show ?thesis
    by (simp add: answered_def split: sum.split)
qed

section \<open>The request of a listing\<close>

text \<open>
  A listing request leaves the cache and the TLS variable as they were and adds one
  request to the record, or two when the first failed with 401 or 403; its result is
  that of the last request.
\<close>

lemma listing_request_shape:
  assumes "listing_request w s r url = (res, s')"
  shows "cache s' = cache s \<and> tls_env s' = tls_env s \<and>
     ((\<exists>q. requests s' = requests s @ [q] \<and> answered q res \<and> req_url q = url) \<or>
      (\<exists>q1 q2 e1. requests s' = requests s @ [q1, q2] \<and> req_error q1 = Some e1 \<and>
         (error_status e1 = Some 401 \<or> error_status e1 = Some 403) \<and> answered q2 res \<and>
         req_url q1 = url \<and> req_url q2 = url))"
proof -
  let ?ie = "truthy (baseUrl r)"
  obtain a s1 where h: "createRequestHeaders w s ?ie = (a, s1)"
    by (cases "createRequestHeaders w s ?ie")
  have f1: "cache s1 = cache s" "tls_env s1 = tls_env s" "requests s1 = requests s"
    using createRequestHeaders_frame [of w s ?ie] h by simp_all
  let ?cfg = "\<lparr>cfg_authorization = a, cfg_withCredentials = ?ie,
                cfg_httpsAgent = (if ?ie then createHttpsAgent w url else None)\<rparr>"
  let ?relax = "?ie \<and> allowInsecureEnterpriseCerts w"
  obtain res1 s2 where g: "tls_scoped ?relax (axios_get w url ?cfg) s1 = (res1, s2)"
    by (cases "tls_scoped ?relax (axios_get w url ?cfg) s1")
  have f2: "cache s2 = cache s" "tls_env s2 = tls_env s"
    "\<exists>q. requests s2 = requests s @ [q] \<and> answered q res1 \<and> req_url q = url"
    using tls_scoped_axios_get_result [OF g] f1 by simp_all
  show ?thesis
  proof (cases res1)
    case (Inr d)
    with assms h g have "res = res1" "s' = s2"
      by (simp_all add: listing_request_def Let_def)
    with f2 show ?thesis by auto
  next
    case (Inl e1)
    obtain b s3 where k: "handleAuthError w s2 e1 ?ie = (b, s3)"
      by (cases "handleAuthError w s2 e1 ?ie")
    have f3: "cache s3 = cache s" "tls_env s3 = tls_env s" "requests s3 = requests s2"
      using handleAuthError_frame [of w s2 e1 ?ie] k f2 by simp_all
    show ?thesis
    proof (cases b)
      case False
      with assms h g Inl k have "res = res1" "s' = s3"
        by (simp_all add: listing_request_def Let_def)
      with f2 f3 show ?thesis by auto
    next
      case True
      obtain a' s4 where h': "createRequestHeaders w s3 ?ie = (a', s4)"
        by (cases "createRequestHeaders w s3 ?ie")
      have f4: "cache s4 = cache s" "tls_env s4 = tls_env s" "requests s4 = requests s2"
        using createRequestHeaders_frame [of w s3 ?ie] h' f3 by simp_all
      let ?cfg' = "\<lparr>cfg_authorization = a', cfg_withCredentials = ?ie,
                cfg_httpsAgent = (if ?ie then createHttpsAgent w url else None)\<rparr>"
      from assms h g Inl k True h'
      have r: "tls_scoped ?relax (axios_get w url ?cfg') s4 = (res, s')"
        by (simp add: listing_request_def Let_def)
      have st: "error_status e1 = Some 401 \<or> error_status e1 = Some 403"
        using handleAuthError_retry [of w s2 e1 ?ie] k True by simp
      from f2 Inl obtain q1 where q1: "requests s2 = requests s @ [q1]"
        "req_error q1 = Some e1" "req_url q1 = url"
        by (auto simp: answered_def)
      have "cache s' = cache s" "tls_env s' = tls_env s"
        "\<exists>q. requests s' = requests s4 @ [q] \<and> answered q res \<and> req_url q = url"
        using tls_scoped_axios_get_result [OF r] f4 by simp_all
      with f4 q1 st show ?thesis by auto
    qed
  qed
qed

section \<open>The cases of \<open>getFilesByRepo\<close>\<close>

lemma getFilesByRepo_cases:
  assumes "getFilesByRepo w s r c force = (res, s')"
  obtains
    (excluded) "resolveContentPath r c = None" "res = Inr []" "s' = s"
  | (hit) p d where "resolveContentPath r c = Some p"
      "cache_lookup force (date_now w (tick s)) (cache s (cache_key r c)) = Some d"
      "res = Inr d" "s' = s"
  | (fetched) p s1 items s2 where "resolveContentPath r c = Some p"
      "cache_lookup force (date_now w (tick s)) (cache s (cache_key r c)) = None"
      "cache s1 = cache s" "tls_env s1 = tls_env s" "requests s1 = requests s"
      "listing_request w s1 r (buildApiUrlForPath r p) = (Inr (Listing items), s2)"
      "res = Inr (filter_listing r c items)"
      "s' = s2\<lparr>cache := (cache s2)(cache_key r c \<mapsto>
              \<lparr>ce_data = filter_listing r c items, ce_timestamp = date_now w (tick s),
               ce_category = c, ce_repo = r\<rparr>)\<rparr>"
  | (no_array) p s1 fo where "resolveContentPath r c = Some p"
      "cache_lookup force (date_now w (tick s)) (cache s (cache_key r c)) = None"
      "cache s1 = cache s" "tls_env s1 = tls_env s" "requests s1 = requests s"
      "listing_request w s1 r (buildApiUrlForPath r p) = (Inr (FileObject fo), s')"
      "res = Inl (load_error r c not_an_array)"
  | (not_found) p s1 e where "resolveContentPath r c = Some p"
      "cache_lookup force (date_now w (tick s)) (cache s (cache_key r c)) = None"
      "cache s1 = cache s" "tls_env s1 = tls_env s" "requests s1 = requests s"
      "listing_request w s1 r (buildApiUrlForPath r p) = (Inl e, s')"
      "error_status e = Some 404" "res = Inr []"
  | (failed) p s1 e where "resolveContentPath r c = Some p"
      "cache_lookup force (date_now w (tick s)) (cache s (cache_key r c)) = None"
      "cache s1 = cache s" "tls_env s1 = tls_env s" "requests s1 = requests s"
      "listing_request w s1 r (buildApiUrlForPath r p) = (Inl e, s')"
      "error_status e \<noteq> Some 404" "res = Inl (load_error r c e)"
proof (cases "resolveContentPath r c")
  case None
  with assms have "res = Inr []" "s' = s"
    by (simp_all add: getFilesByRepo_def)
  with None show ?thesis by (rule excluded)
next
  case (Some p)
  let ?now = "date_now w (tick s)"
  show ?thesis
  proof (cases "cache_lookup force ?now (cache s (cache_key r c))")
    case (Some d)
    with assms \<open>resolveContentPath r c = Some p\<close> have "res = Inr d" "s' = s"
      by (simp_all add: getFilesByRepo_def Let_def)
    with \<open>resolveContentPath r c = Some p\<close> Some show ?thesis by (rule hit)
  next
    case None
    let ?s1 = "proactive_auth w s (enableGithubAuth w \<and> \<not> truthy (baseUrl r))"
    obtain res0 s2 where l: "listing_request w ?s1 r (buildApiUrlForPath r p) = (res0, s2)"
      by (cases "listing_request w ?s1 r (buildApiUrlForPath r p)")
    have fr: "cache ?s1 = cache s" "tls_env ?s1 = tls_env s" "requests ?s1 = requests s"
      by simp_all
    from assms \<open>resolveContentPath r c = Some p\<close> None l
    have eq: "(res, s') =
        (case res0 of
           Inr (Listing items) \<Rightarrow>
             (Inr (filter_listing r c items),
              s2\<lparr>cache := (cache s2)(cache_key r c \<mapsto>
                \<lparr>ce_data = filter_listing r c items, ce_timestamp = ?now,
                 ce_category = c, ce_repo = r\<rparr>)\<rparr>)
         | Inr (FileObject fo) \<Rightarrow> (Inl (load_error r c not_an_array), s2)
         | Inl e \<Rightarrow> if error_status e = Some 404 then (Inr [], s2)
                    else (Inl (load_error r c e), s2))"
      by (auto simp: getFilesByRepo_def Let_def split: sum.splits response_data.splits)
    show ?thesis
    proof (cases res0)
      case (Inl e)
      show ?thesis
      proof (cases "error_status e = Some 404")
        case True
        with eq Inl have "res = Inr []" "s' = s2" by simp_all
        with \<open>resolveContentPath r c = Some p\<close> None fr l Inl True show ?thesis
          by (intro not_found [of p ?s1 e]) simp_all
      next
        case False
        with eq Inl have "res = Inl (load_error r c e)" "s' = s2" by simp_all
        with \<open>resolveContentPath r c = Some p\<close> None fr l Inl False show ?thesis
          by (intro failed [of p ?s1 e]) simp_all
      qed
    next
      case (Inr d)
      show ?thesis
      proof (cases d)
        case (Listing items)
        with eq Inr have "res = Inr (filter_listing r c items)"
          "s' = s2\<lparr>cache := (cache s2)(cache_key r c \<mapsto>
                \<lparr>ce_data = filter_listing r c items, ce_timestamp = ?now,
                 ce_category = c, ce_repo = r\<rparr>)\<rparr>" by simp_all
        with \<open>resolveContentPath r c = Some p\<close> None fr l Inr Listing show ?thesis
          by (intro fetched [of p ?s1 items s2]) simp_all
      next
        case (FileObject fo)
        with eq Inr have "res = Inl (load_error r c not_an_array)" "s' = s2" by simp_all
        with \<open>resolveContentPath r c = Some p\<close> None fr l Inr FileObject show ?thesis
          by (intro no_array [of p ?s1 fo]) simp_all
      qed
    qed
  qed
qed

lemma getFilesByRepo_tls:
  assumes "getFilesByRepo w s r c force = (res, s')"
  shows "tls_env s' = tls_env s"
  using assms
proof (cases rule: getFilesByRepo_cases)
  case (fetched p s1 items s2)
  with listing_request_shape [OF fetched(6)] show ?thesis by simp
next
  case (no_array p s1 fo)
  with listing_request_shape [OF no_array(6)] show ?thesis by simp
next
  case (not_found p s1 e)
  with listing_request_shape [OF not_found(6)] show ?thesis by simp
next
  case (failed p s1 e)
  with listing_request_shape [OF failed(6)] show ?thesis by simp
qed simp_all

section \<open>Fetching one file\<close>

lemma getFileContent_shape:
  assumes "getFileContent w s url = (res, s')"
  shows "cache s' = cache s \<and> tls_env s' = tls_env s \<and>
     (\<exists>q. requests s' = requests s @ [q] \<and> req_url q = url \<and>
        (case res of Inl e \<Rightarrow> req_error q \<noteq> None | Inr b \<Rightarrow> req_error q = None))"
proof -
  let ?ie = "\<not> str_includes url ''github.com''"
  obtain a s1 where h: "createRequestHeaders w s ?ie = (a, s1)"
    by (cases "createRequestHeaders w s ?ie")
  have f1: "cache s1 = cache s" "tls_env s1 = tls_env s" "requests s1 = requests s"
    using createRequestHeaders_frame [of w s ?ie] h by simp_all
  let ?cfg = "\<lparr>cfg_authorization = a, cfg_withCredentials = ?ie,
                cfg_httpsAgent = (if ?ie then createHttpsAgent w url else None)\<rparr>"
  let ?relax = "?ie \<and> allowInsecureEnterpriseCerts w"
  obtain res1 s2 where g: "tls_scoped ?relax (axios_get_raw w url ?cfg) s1 = (res1, s2)"
    by (cases "tls_scoped ?relax (axios_get_raw w url ?cfg) s1")
  have f2: "cache s2 = cache s" "tls_env s2 = tls_env s"
    "\<exists>q. requests s2 = requests s @ [q] \<and> answered q res1 \<and> req_url q = url"
    using tls_scoped_axios_get_raw_result [OF g] f1 by simp_all
  from assms h g have "s' = s2"
    "res = (case res1 of Inr body \<Rightarrow> Inr body
            | Inl e \<Rightarrow> Inl (Error (''Failed to fetch file content: '' @ error_text e)))"
    by (auto simp: getFileContent_def Let_def split: sum.splits)
  with f2 show ?thesis
    by (auto simp: answered_def split: sum.splits)
qed

text \<open>
  \<open>getFileContentByPath\<close> issues one request, or two when it follows the download
  locator; whenever one of them fails, the function throws.
\<close>

lemma getFileContentByPath_shape:
  assumes "getFileContentByPath w s r p = (res, s')"
  shows "cache s' = cache s \<and> tls_env s' = tls_env s \<and>
     (\<exists>new. requests s' = requests s @ new \<and> new \<noteq> [] \<and>
        ((\<exists>q \<in> set new. req_error q \<noteq> None) \<longrightarrow> (\<exists>e. res = Inl (path_error p e))))"
proof -
  let ?url = "buildApiUrlForPath r p"
  let ?ie = "truthy (baseUrl r)"
  obtain a s1 where h: "createRequestHeaders w s ?ie = (a, s1)"
    by (cases "createRequestHeaders w s ?ie")
  have f1: "cache s1 = cache s" "tls_env s1 = tls_env s" "requests s1 = requests s"
    using createRequestHeaders_frame [of w s ?ie] h by simp_all
  let ?cfg = "\<lparr>cfg_authorization = a, cfg_withCredentials = ?ie,
                cfg_httpsAgent = (if ?ie then createHttpsAgent w ?url else None)\<rparr>"
  let ?relax = "?ie \<and> allowInsecureEnterpriseCerts w"
  obtain res1 s2 where g: "tls_scoped ?relax (axios_get w ?url ?cfg) s1 = (res1, s2)"
    by (cases "tls_scoped ?relax (axios_get w ?url ?cfg) s1")
  from tls_scoped_axios_get_result [OF g] f1
  obtain q where f2: "cache s2 = cache s" "tls_env s2 = tls_env s"
    "requests s2 = requests s @ [q]" "answered q res1"
    by auto
  show ?thesis
  proof (cases res1)
    case (Inl e)
    with assms h g have "res = Inl (path_error p e)" "s' = s2"
      by (simp_all add: getFileContentByPath_def Let_def)
    with f2 show ?thesis by auto
  next
    case (Inr d)
    with f2 have ok: "req_error q = None" by (simp add: answered_def)
    show ?thesis
    proof (cases d)
      case (Listing items)
      with assms h g Inr have "res = Inl (path_error p (not_a_file p))" "s' = s2"
        by (simp_all add: getFileContentByPath_def Let_def)
      with f2 show ?thesis by auto
    next
      case (FileObject fo)
      show ?thesis
      proof (cases "fo_type fo = ''file'' \<and> truthy (fo_content fo)")
        case True
        with assms h g Inr FileObject have "s' = s2"
          by (auto simp: getFileContentByPath_def Let_def split: option.splits)
        with f2 ok show ?thesis by auto
      next
        case False
        note no_inline = this
        show ?thesis
        proof (cases "fo_type fo = ''file'' \<and> truthy (fo_download_url fo)")
          case False
          with no_inline assms h g Inr FileObject
          have "res = Inl (path_error p (not_a_file p))" "s' = s2"
            by (auto simp: getFileContentByPath_def Let_def)
          with f2 show ?thesis by auto
        next
          case True
          let ?u = "the (fo_download_url fo)"
          obtain res2 s3 where c: "getFileContent w s2 ?u = (res2, s3)"
            by (cases "getFileContent w s2 ?u")
          from getFileContent_shape [OF c] f2
          obtain q2 where f3: "cache s3 = cache s" "tls_env s3 = tls_env s"
            "requests s3 = requests s @ [q, q2]"
            "case res2 of Inl e \<Rightarrow> req_error q2 \<noteq> None | Inr b \<Rightarrow> req_error q2 = None"
            by auto
          from True no_inline assms h g Inr FileObject c
          have "s' = s3" "case res2 of Inl e \<Rightarrow> res = Inl (path_error p e) | Inr b \<Rightarrow> True"
            by (auto simp: getFileContentByPath_def Let_def split: sum.splits)
          with f3 ok show ?thesis
            by (cases res2) auto
        qed
      qed
    qed
  qed
qed

section \<open>The loop of \<open>getFiles\<close>\<close>

lemma getFiles_repo_cases:
  assumes "getFiles_repo w c force now r (s, allFiles, touched) = (s', allFiles', touched')"
  obtains
    (hit) d where "cache_lookup force now (cache s (cache_key r c)) = Some d"
      "s' = s" "allFiles' = allFiles @ d" "touched' = touched @ [cache_key r c]"
  | (excluded) "cache_lookup force now (cache s (cache_key r c)) = None"
      "resolveContentPath r c = None" "s' = s" "allFiles' = allFiles" "touched' = touched"
  | (fetched) p items s2 where "cache_lookup force now (cache s (cache_key r c)) = None"
      "resolveContentPath r c = Some p"
      "listing_request w s r (buildApiUrlForPath r p) = (Inr (Listing items), s2)"
      "s' = s2\<lparr>cache := (cache s2)(cache_key r c \<mapsto>
              \<lparr>ce_data = filter_listing r c items, ce_timestamp = now,
               ce_category = c, ce_repo = r\<rparr>)\<rparr>"
      "allFiles' = allFiles @ filter_listing r c items" "touched' = touched @ [cache_key r c]"
  | (caught) p res where "cache_lookup force now (cache s (cache_key r c)) = None"
      "resolveContentPath r c = Some p"
      "listing_request w s r (buildApiUrlForPath r p) = (res, s')"
      "allFiles' = allFiles" "touched' = touched"
proof (cases "cache_lookup force now (cache s (cache_key r c))")
  case (Some d)
  with assms have "s' = s" "allFiles' = allFiles @ d" "touched' = touched @ [cache_key r c]"
    by (simp_all add: getFiles_repo_def Let_def)
  with Some show ?thesis by (rule hit)
next
  case None
  note miss = this
  show ?thesis
  proof (cases "resolveContentPath r c")
    case None
    with miss assms have "s' = s" "allFiles' = allFiles" "touched' = touched"
      by (simp_all add: getFiles_repo_def Let_def)
    with miss None show ?thesis by (rule excluded)
  next
    case (Some p)
    obtain res0 s2 where l: "listing_request w s r (buildApiUrlForPath r p) = (res0, s2)"
      by (cases "listing_request w s r (buildApiUrlForPath r p)")
    show ?thesis
    proof (cases "\<exists>items. res0 = Inr (Listing items)")
      case True
      then obtain items where i: "res0 = Inr (Listing items)" ..
      with miss Some l assms
      have "s' = s2\<lparr>cache := (cache s2)(cache_key r c \<mapsto>
              \<lparr>ce_data = filter_listing r c items, ce_timestamp = now,
               ce_category = c, ce_repo = r\<rparr>)\<rparr>"
        "allFiles' = allFiles @ filter_listing r c items" "touched' = touched @ [cache_key r c]"
        by (simp_all add: getFiles_repo_def Let_def)
      with miss Some l i show ?thesis
        by (intro fetched [of p items s2]) simp_all
    next
      case False
      with miss Some l assms have "s' = s2" "allFiles' = allFiles" "touched' = touched"
        by (auto simp: getFiles_repo_def Let_def split: sum.splits response_data.splits)
      with miss Some l show ?thesis
        by (intro caught [of p res0]) simp_all
    qed
  qed
qed

section \<open>The invariant of the cache\<close>

lemma filter_listing_ok:
  "f \<in> set (filter_listing r c items) \<Longrightarrow> entry_ok c f"
  by (cases c) (auto simp: filter_listing_def keep_entry_def listed_type_def entry_ok_def)

lemma cache_key_suffix: "suffix (''|'' @ category_value c) (cache_key r c)"
  by (simp add: cache_key_def suffix_def)

text \<open>The key of a cache entry determines its category.\<close>

lemma key_category:
  assumes "suffix (''|'' @ category_value c1) k" "suffix (''|'' @ category_value c2) k"
  shows "c1 = c2"
proof -
  from assms have "suffix (''|'' @ category_value c1) (''|'' @ category_value c2) \<or>
      suffix (''|'' @ category_value c2) (''|'' @ category_value c1)"
    by (rule suffix_same_cases)
  then show ?thesis
    by (cases c1; cases c2) (simp_all add: suffix_to_prefix)
qed

lemma cache_lookup_Some:
  "cache_lookup force now ce = Some d \<Longrightarrow>
     \<exists>e. ce = Some e \<and> d = ce_data e \<and> \<not> force \<and> now - ce_timestamp e < CACHE_DURATION"
  by (auto simp: cache_lookup_def split: option.splits if_splits)

lemma hit_ok:
  assumes "cache_ok s" "cache_lookup force now (cache s (cache_key r c)) = Some d"
  shows "\<forall>f \<in> set d. entry_ok c f"
proof -
  from cache_lookup_Some [OF assms(2)] obtain e where
    e: "cache s (cache_key r c) = Some e" "d = ce_data e" by auto
  with assms(1) have "suffix (''|'' @ category_value (ce_category e)) (cache_key r c)"
    and t: "\<forall>f \<in> set (ce_data e). entry_ok (ce_category e) f"
    by (auto simp: cache_ok_def)
  with cache_key_suffix [of c r] have "ce_category e = c"
    by (auto intro: key_category)
  with t e show ?thesis by simp
qed

lemma cache_ok_update:
  assumes "cache_ok s" "cache s2 = cache s"
  shows "cache_ok (s2\<lparr>cache := (cache s2)(cache_key r c \<mapsto>
              \<lparr>ce_data = filter_listing r c items, ce_timestamp = now,
               ce_category = c, ce_repo = r\<rparr>)\<rparr>)"
  using assms cache_key_suffix [of c r]
  by (auto simp: cache_ok_def filter_listing_ok)

lemma cache_ok_cong: "cache s' = cache s \<Longrightarrow> cache_ok s' = cache_ok s"
  by (simp add: cache_ok_def)

lemma cache_ok_init: "cache_ok init_service"
  by (simp add: cache_ok_def init_service_def)

lemma cache_ok_clear:
  "cache_ok s \<Longrightarrow> cache_ok (clearCache s)"
  "cache_ok s \<Longrightarrow> cache_ok (clearRepoCache s r)"
  "cache_ok s \<Longrightarrow> cache_ok (clearCategoryCache s r c)"
  by (auto simp: cache_ok_def clearCache_def clearRepoCache_def clearCategoryCache_def
      split: if_splits)

lemma getFilesByRepo_ok:
  assumes "getFilesByRepo w s r c force = (res, s')" "cache_ok s"
  shows "cache_ok s' \<and> (\<forall>files. res = Inr files \<longrightarrow> (\<forall>f \<in> set files. entry_ok c f))"
  using assms(1)
proof (cases rule: getFilesByRepo_cases)
  case excluded
  with assms show ?thesis by simp
next
  case (hit p d)
  with assms hit_ok [OF assms(2) hit(2)] show ?thesis by simp
next
  case (fetched p s1 items s2)
  from listing_request_shape [OF fetched(6)] fetched have "cache s2 = cache s" by simp
  with assms fetched cache_ok_update [of s s2 r c items] show ?thesis
    by (auto simp: filter_listing_ok)
next
  case (no_array p s1 fo)
  from listing_request_shape [OF no_array(6)] no_array have "cache s' = cache s" by simp
  with assms no_array cache_ok_cong [of s' s] show ?thesis by simp
next
  case (not_found p s1 e)
  from listing_request_shape [OF not_found(6)] not_found have "cache s' = cache s" by simp
  with assms not_found cache_ok_cong [of s' s] show ?thesis by simp
next
  case (failed p s1 e)
  from listing_request_shape [OF failed(6)] failed have "cache s' = cache s" by simp
  with assms failed cache_ok_cong [of s' s] show ?thesis by simp
qed

lemma getFiles_repo_tls:
  assumes "getFiles_repo w c force now r (s, a, t) = (s', a', t')"
  shows "tls_env s' = tls_env s"
  using assms
proof (cases rule: getFiles_repo_cases)
  case (fetched p items s2)
  with listing_request_shape [OF fetched(3)] show ?thesis by simp
next
  case (caught p res)
  with listing_request_shape [OF caught(3)] show ?thesis by simp
qed simp_all

lemma getFiles_repo_ok:
  assumes "getFiles_repo w c force now r (s, a, t) = (s', a', t')"
    and "cache_ok s" "\<forall>f \<in> set a. entry_ok c f"
  shows "cache_ok s' \<and> (\<forall>f \<in> set a'. entry_ok c f)"
  using assms(1)
proof (cases rule: getFiles_repo_cases)
  case (hit d)
  with assms hit_ok [OF assms(2) hit(1)] show ?thesis by auto
next
  case excluded
  with assms show ?thesis by simp
next
  case (fetched p items s2)
  from listing_request_shape [OF fetched(3)] have "cache s2 = cache s" by simp
  with assms fetched cache_ok_update [of s s2 r c items now] show ?thesis
    by (auto simp: filter_listing_ok)
next
  case (caught p res)
  from listing_request_shape [OF caught(3)] have "cache s' = cache s" by simp
  with assms caught cache_ok_cong [of s' s] show ?thesis by simp
qed

lemma getFiles_loop_tls:
  "getFiles_loop w c force now srcs (s, a, t) = (s', a', t') \<Longrightarrow> tls_env s' = tls_env s"
proof (induction srcs arbitrary: s a t)
  case Nil
  then show ?case by simp
next
  case (Cons r srcs)
  obtain s1 a1 t1 where st: "getFiles_repo w c force now r (s, a, t) = (s1, a1, t1)"
    by (cases "getFiles_repo w c force now r (s, a, t)")
  with Cons.prems have "getFiles_loop w c force now srcs (s1, a1, t1) = (s', a', t')"
    by simp
  from Cons.IH [OF this] getFiles_repo_tls [OF st] show ?case by simp
qed

lemma getFiles_loop_ok:
  "getFiles_loop w c force now srcs (s, a, t) = (s', a', t') \<Longrightarrow>
   cache_ok s \<Longrightarrow> \<forall>f \<in> set a. entry_ok c f \<Longrightarrow>
   cache_ok s' \<and> (\<forall>f \<in> set a'. entry_ok c f)"
proof (induction srcs arbitrary: s a t)
  case Nil
  then show ?case by simp
next
  case (Cons r srcs)
  obtain s1 a1 t1 where st: "getFiles_repo w c force now r (s, a, t) = (s1, a1, t1)"
    by (cases "getFiles_repo w c force now r (s, a, t)")
  with Cons.prems have l: "getFiles_loop w c force now srcs (s1, a1, t1) = (s', a', t')"
    by simp
  from getFiles_repo_ok [OF st Cons.prems(2) Cons.prems(3)]
  have "cache_ok s1" "\<forall>f \<in> set a1. entry_ok c f" by simp_all
  from Cons.IH [OF l this] show ?case .
qed

section \<open>Display names\<close>


lemma count_list_pos: "x \<in> set xs \<Longrightarrow> 0 < count_list xs x"
  by (induction xs) auto

lemma count_names_iff:
  "n \<in> count_names fs cnt D \<longleftrightarrow>
     n \<in> D \<or> (n \<in> f_name ` set fs \<and>
            2 \<le> count_list (map f_name fs) n + (case cnt n of Some k \<Rightarrow> k | None \<Rightarrow> 0))"
proof (induction fs arbitrary: cnt D)
  case Nil
  then show ?case by simp
next
  case (Cons f fs)
  let ?count = "case cnt (f_name f) of Some k \<Rightarrow> k | None \<Rightarrow> 0"
  let ?cnt = "cnt(f_name f \<mapsto> ?count + 1)"
  let ?D = "if ?count \<ge> 1 then insert (f_name f) D else D"
  have step: "count_names (f # fs) cnt D = count_names fs ?cnt ?D"
    by (simp add: Let_def)
  show ?case
  proof (cases "n = f_name f")
    case True
    have "n \<in> f_name ` set fs \<longleftrightarrow> 0 < count_list (map f_name fs) n"
      by (metis count_list_0_iff list.set_map not_gr_zero)
    with True show ?thesis
      unfolding step Cons.IH by auto
  next
    case False
    then show ?thesis
      unfolding step Cons.IH by auto
  qed
qed

lemma duplicateNames_iff:
  "n \<in> count_names fs Map.empty {} \<longleftrightarrow> 2 \<le> count_list (map f_name fs) n"
proof -
  have "2 \<le> count_list (map f_name fs) n \<Longrightarrow> n \<in> f_name ` set fs"
    by (metis count_list_0_iff list.set_map not_numeral_le_zero)
  then show ?thesis
    by (auto simp: count_names_iff)
qed

lemma two_entries_counted:
  "x \<in> set xs \<Longrightarrow> y \<in> set xs \<Longrightarrow> x \<noteq> y \<Longrightarrow> k x = n \<Longrightarrow> k y = n \<Longrightarrow>
     2 \<le> count_list (map k xs) n"
proof (induction xs)
  case Nil
  then show ?case by simp
next
  case (Cons a xs)
  show ?case
  proof (cases "a = x")
    case True
    with Cons.prems have "y \<in> set xs" by auto
    then have "k y \<in> set (map k xs)" by simp
    from count_list_pos [OF this] Cons.prems True show ?thesis by simp
  next
    case False
    note ax = this
    show ?thesis
    proof (cases "a = y")
      case True
      with Cons.prems have "x \<in> set xs" by auto
      then have "k x \<in> set (map k xs)" by simp
      from count_list_pos [OF this] Cons.prems True show ?thesis by simp
    next
      case False
      with ax Cons.prems have "x \<in> set xs" "y \<in> set xs" by auto
      from Cons.IH [OF this Cons.prems(3,4,5)] show ?thesis by simp
    qed
  qed
qed

lemma set_displayName_keeps [simp]:
  "f_name (set_displayName D f) = f_name f"
  "f_type (set_displayName D f) = f_type f"
  "f_repo (set_displayName D f) = f_repo f"
  by (simp_all add: set_displayName_def split: option.split)

lemma set_displayName_ok [simp]: "entry_ok c (set_displayName D f) = entry_ok c f"
  by (simp add: entry_ok_def)


section \<open>The result of \<open>getFiles\<close>\<close>

lemma getFiles_result:
  assumes "getFiles w s c force ctx = (files, s')"
  obtains srcs s1 s2 allFiles touched where
    "tls_env s1 = tls_env s" "cache s1 = cache s" "requests s1 = requests s"
    "getFiles_loop w c force (date_now w (tick s1)) srcs (s1, [], []) = (s2, allFiles, touched)"
    "files = map (set_displayName (count_names allFiles Map.empty {})) allFiles"
    "s' = s2\<lparr>cache := (\<lambda>k. if k \<in> set touched
                then map_option
                  (\<lambda>e. e\<lparr>ce_data := map (set_displayName (count_names allFiles Map.empty {}))
                                     (ce_data e)\<rparr>) (cache s2 k)
                else cache s2 k)\<rparr>"
proof -
  let ?srcs = "case ctx of Some (Sources l) \<Rightarrow> l | Some SourcesThrow \<Rightarrow> default_sources
               | None \<Rightarrow> default_sources"
  let ?s1 = "proactive_auth w s (enableGithubAuth w)"
  obtain s2 allFiles touched where
    l: "getFiles_loop w c force (date_now w (tick ?s1)) ?srcs (?s1, [], []) = (s2, allFiles, touched)"
    by (cases "getFiles_loop w c force (date_now w (tick ?s1)) ?srcs (?s1, [], [])")
  from assms l have
    "files = map (set_displayName (count_names allFiles Map.empty {})) allFiles"
    "s' = s2\<lparr>cache := (\<lambda>k. if k \<in> set touched
                then map_option
                  (\<lambda>e. e\<lparr>ce_data := map (set_displayName (count_names allFiles Map.empty {}))
                                     (ce_data e)\<rparr>) (cache s2 k)
                else cache s2 k)\<rparr>"
    by (simp_all add: getFiles_def Let_def)
  with l show ?thesis
    by (intro that [of ?s1 ?srcs s2 allFiles touched]) simp_all
qed

lemma getFiles_tls:
  assumes "getFiles w s c force ctx = (files, s')"
  shows "tls_env s' = tls_env s"
  using assms
proof (cases rule: getFiles_result)
  case (1 srcs s1 s2 allFiles touched)
  from getFiles_loop_tls [OF 1(4)] 1 show ?thesis by simp
qed

lemma getFiles_ok:
  assumes "getFiles w s c force ctx = (files, s')" "cache_ok s"
  shows "cache_ok s' \<and> (\<forall>f \<in> set files. entry_ok c f)"
  using assms(1)
proof (cases rule: getFiles_result)
  case (1 srcs s1 s2 allFiles touched)
  from 1(2) assms(2) cache_ok_cong [of s1 s] have "cache_ok s1" by simp
  from getFiles_loop_ok [OF 1(4) this] have ok: "cache_ok s2" "\<forall>f \<in> set allFiles. entry_ok c f"
    by simp_all
  from ok(1) have "cache_ok s'"
    unfolding 1(6) by (auto simp: cache_ok_def split: if_splits)
  with ok(2) 1(5) show ?thesis by simp
qed



section \<open>Evaluation at concrete inputs\<close>

lemmas service_defs =
  getFilesByRepo_def getFiles_def getFiles_repo_def default_sources_def
  resolveContentPath_def cache_lookup_def cache_key_def repo_key_def
  proactive_auth_def checkAuthentication_def ensureGitHubAuth_def handleAuthError_def
  createRequestHeaders_def createHttpsAgent_def buildApiUrlForPath_def listing_request_def
  tls_scoped_def axios_get_def axios_get_raw_def ask_session_def ask_dialog_def
  filter_listing_def keep_entry_def load_error_def not_an_array_def set_displayName_def
  getFileContent_def getFileContentByPath_def path_error_def not_a_file_def
  strip_trailing_slash_def init_service_def new_requests_def Let_def

section \<open>Listings are filtered by entry type\<close>

text \<open>
  Claim C10. Every listing that \<open>getFilesByRepo\<close> or \<open>getFiles\<close> returns holds
  directories only when the category is skills or plugins, and files only when it is
  agents, instructions or prompts, whether it was fetched or came from the cache; the
  cache keeps its invariant, so what is cached is filtered too. The hypothesis is the
  invariant of the cache, which holds for a new service and is kept by every operation
  that writes the cache.
\<close>

theorem listings_filtered_by_type:
  assumes "cache_ok s"
  shows "(getFilesByRepo w s r c force = (Inr files, s') \<longrightarrow>
            cache_ok s' \<and>
            (\<forall>f \<in> set files.
               (c = Skills \<or> c = Plugins \<longrightarrow> f_type f = ''dir'') \<and>
               (c = Agents \<or> c = Instructions \<or> c = Prompts \<longrightarrow> f_type f = ''file''))) \<and>
         (getFiles w s c force ctx = (files', s'') \<longrightarrow>
            cache_ok s'' \<and>
            (\<forall>f \<in> set files'.
               (c = Skills \<or> c = Plugins \<longrightarrow> f_type f = ''dir'') \<and>
               (c = Agents \<or> c = Instructions \<or> c = Prompts \<longrightarrow> f_type f = ''file'')))"
proof (intro conjI impI)
  assume g: "getFilesByRepo w s r c force = (Inr files, s')"
  from getFilesByRepo_ok [OF g assms] show "cache_ok s'" by simp
  from getFilesByRepo_ok [OF g assms] have "\<forall>f \<in> set files. f_type f = listed_type c"
    by (simp add: entry_ok_def)
  then show "\<forall>f \<in> set files.
               (c = Skills \<or> c = Plugins \<longrightarrow> f_type f = ''dir'') \<and>
               (c = Agents \<or> c = Instructions \<or> c = Prompts \<longrightarrow> f_type f = ''file'')"
    by (auto simp: listed_type_def)
next
  assume g: "getFiles w s c force ctx = (files', s'')"
  from getFiles_ok [OF g assms] show "cache_ok s''" by simp
  from getFiles_ok [OF g assms] have "\<forall>f \<in> set files'. f_type f = listed_type c"
    by (simp add: entry_ok_def)
  then show "\<forall>f \<in> set files'.
               (c = Skills \<or> c = Plugins \<longrightarrow> f_type f = ''dir'') \<and>
               (c = Agents \<or> c = Instructions \<or> c = Prompts \<longrightarrow> f_type f = ''file'')"
    by (auto simp: listed_type_def)
qed

theorem listings_filtered_by_type_witness:
  "cache_ok init_service \<and>
   map f_name (projr (fst (getFilesByRepo mixed_world init_service public_repo Skills False))) = [''my-skill''] \<and>
   list_all (\<lambda>f. f_type f = ''dir'')
     (projr (fst (getFilesByRepo mixed_world init_service public_repo Skills False))) \<and>
   map f_name (fst (getFiles mixed_world init_service Agents False None)) = [''README.md''] \<and>
   list_all (\<lambda>f. f_type f = ''file'') (fst (getFiles mixed_world init_service Agents False None))"
proof -
  let ?a = "getFilesByRepo mixed_world init_service public_repo Skills False"
  let ?b = "getFiles mixed_world init_service Agents False None"
  have a: "?a = (Inr (projr (fst ?a)), snd ?a)"
    by (simp add: service_defs mixed_world_def quiet_world_def public_repo_def entry_def)
  have b: "?b = (fst ?b, snd ?b)" by simp
  from listings_filtered_by_type [OF cache_ok_init, of mixed_world public_repo Skills False
      "projr (fst ?a)" "snd ?a" None "fst (getFiles mixed_world init_service Skills False None)"
      "snd (getFiles mixed_world init_service Skills False None)"] a
  have 1: "list_all (\<lambda>f. f_type f = ''dir'') (projr (fst ?a))"
    by (simp add: list_all_iff)
  from listings_filtered_by_type [OF cache_ok_init, of mixed_world public_repo Agents False
      "[]" init_service None "fst ?b" "snd ?b"] b
  have 2: "list_all (\<lambda>f. f_type f = ''file'') (fst ?b)"
    by (simp add: list_all_iff)
  have 3: "map f_name (projr (fst ?a)) = [''my-skill'']"
    by (simp add: service_defs mixed_world_def quiet_world_def public_repo_def entry_def)
  have 4: "map f_name (fst ?b) = [''README.md'']"
    by (simp add: service_defs mixed_world_def quiet_world_def public_repo_def entry_def)
  from 1 2 3 4 cache_ok_init show ?thesis by simp
qed

section \<open>The TLS variable is restored\<close>



section \<open>A 404 on a listing and on a single file\<close>

text \<open>
  Claim C4. When a request that \<open>getFilesByRepo\<close> issues for a listing fails with
  status 404, the function returns the empty array and throws nothing; when a request
  that \<open>getFileContentByPath\<close> issues fails with status 404, the function throws
  (the error \<open>Failed to fetch file content for path ...\<close>).
\<close>

theorem not_found_contracts:
  "(getFilesByRepo w s r c force = (res, s') \<and> q \<in> set (new_requests s s') \<and>
      req_error q = Some e \<and> error_status e = Some 404 \<longrightarrow> res = Inr []) \<and>
   (getFileContentByPath w s r p = (res2, s2) \<and> q2 \<in> set (new_requests s s2) \<and>
      req_error q2 = Some e2 \<and> error_status e2 = Some 404 \<longrightarrow>
      (\<exists>err. res2 = Inl (path_error p err)))"
proof (intro conjI impI)
  assume a: "getFilesByRepo w s r c force = (res, s') \<and> q \<in> set (new_requests s s') \<and>
      req_error q = Some e \<and> error_status e = Some 404"
  then have g: "getFilesByRepo w s r c force = (res, s')"
    and q: "q \<in> set (new_requests s s')" "req_error q = Some e" "error_status e = Some 404"
    by simp_all
  have key: "res0 = Inl e"
    if l: "listing_request w s1 r u = (res0, s')" and r1: "requests s1 = requests s"
    for s1 u and res0 :: "js_error + response_data"
  proof (cases res0)
    case (Inl e')
    with listing_request_shape [OF l] r1 q show ?thesis
      by (auto simp: new_requests_def answered_def)
  next
    case (Inr d)
    with listing_request_shape [OF l] r1 q show ?thesis
      by (auto simp: new_requests_def answered_def)
  qed
  from g show "res = Inr []"
  proof (cases rule: getFilesByRepo_cases)
    case excluded
    with q show ?thesis by (simp add: new_requests_def)
  next
    case (hit p d)
    with q show ?thesis by (simp add: new_requests_def)
  next
    case (fetched p s1 items s2)
    from listing_request_shape [OF fetched(6)] fetched(5,8) q show ?thesis
      by (auto simp: new_requests_def answered_def)
  next
    case (no_array p s1 fo)
    from key [OF no_array(6) no_array(5)] show ?thesis by simp
  next
    case (not_found p s1 e)
    then show ?thesis by simp
  next
    case (failed p s1 e')
    from key [OF failed(6) failed(5)] failed(7) q show ?thesis by simp
  qed
next
  assume a: "getFileContentByPath w s r p = (res2, s2) \<and> q2 \<in> set (new_requests s s2) \<and>
      req_error q2 = Some e2 \<and> error_status e2 = Some 404"
  then have g: "getFileContentByPath w s r p = (res2, s2)"
    and q: "q2 \<in> set (new_requests s s2)" "req_error q2 = Some e2" by simp_all
  from getFileContentByPath_shape [OF g] q show "\<exists>err. res2 = Inl (path_error p err)"
    by (auto simp: new_requests_def)
qed


theorem not_found_contracts_witness:
  "fst (getFilesByRepo quiet_world init_service public_repo Agents False) = Inr [] \<and>
   map req_error (new_requests init_service
     (snd (getFilesByRepo quiet_world init_service public_repo Agents False))) = [Some not_found_error] \<and>
   (\<exists>err. fst (getFileContentByPath quiet_world init_service public_repo ''agents/x.agent.md'') =
      Inl (path_error ''agents/x.agent.md'' err)) \<and>
   map req_error (new_requests init_service
     (snd (getFileContentByPath quiet_world init_service public_repo ''agents/x.agent.md''))) =
     [Some not_found_error]"
proof -
  let ?a = "getFilesByRepo quiet_world init_service public_repo Agents False"
  let ?b = "getFileContentByPath quiet_world init_service public_repo ''agents/x.agent.md''"
  let ?q = "\<lparr>req_url = ''https://api.github.com/repos/github/awesome-copilot/contents/agents'',
        req_config = \<lparr>cfg_authorization = None, cfg_withCredentials = False, cfg_httpsAgent = None\<rparr>,
        req_tls_env = None, req_error = Some not_found_error\<rparr>"
  let ?q2 = "\<lparr>req_url = ''https://api.github.com/repos/github/awesome-copilot/contents/agents/x.agent.md'',
        req_config = \<lparr>cfg_authorization = None, cfg_withCredentials = False, cfg_httpsAgent = None\<rparr>,
        req_tls_env = None, req_error = Some not_found_error\<rparr>"
  have a: "new_requests init_service (snd ?a) = [?q]"
    by (simp add: service_defs quiet_world_def public_repo_def not_found_error_def)
  have b: "new_requests init_service (snd ?b) = [?q2]"
    by (simp add: service_defs quiet_world_def public_repo_def not_found_error_def)
  have st: "error_status not_found_error = Some 404"
    by (simp add: not_found_error_def)
  from not_found_contracts [of quiet_world init_service public_repo Agents False "fst ?a" "snd ?a"
      ?q not_found_error "''agents/x.agent.md''" "fst ?b" "snd ?b" ?q2 not_found_error] a b st
  have "fst ?a = Inr []" "\<exists>err. fst ?b = Inl (path_error ''agents/x.agent.md'' err)"
    by simp_all
  with a b show ?thesis by simp
qed

lemma listing_request_new:
  assumes "listing_request w s r url = (res, s')"
  shows "cache s' = cache s \<and>
     (\<exists>new. requests s' = requests s @ new \<and> (length new = 1 \<or> length new = 2) \<and>
        (\<forall>q \<in> set new. req_url q = url) \<and>
        (length new = 2 \<longrightarrow> (\<exists>e1. req_error (hd new) = Some e1 \<and>
            (error_status e1 = Some 401 \<or> error_status e1 = Some 403))) \<and>
        answered (last new) res)"
proof -
  from listing_request_shape [OF assms] have c: "cache s' = cache s"
    and d: "(\<exists>q. requests s' = requests s @ [q] \<and> answered q res \<and> req_url q = url) \<or>
      (\<exists>q1 q2 e1. requests s' = requests s @ [q1, q2] \<and> req_error q1 = Some e1 \<and>
         (error_status e1 = Some 401 \<or> error_status e1 = Some 403) \<and> answered q2 res \<and>
         req_url q1 = url \<and> req_url q2 = url)"
    by simp_all
  from d show ?thesis
  proof
    assume "\<exists>q. requests s' = requests s @ [q] \<and> answered q res \<and> req_url q = url"
    then obtain q where "requests s' = requests s @ [q]" "answered q res" "req_url q = url"
      by auto
    with c show ?thesis
      by (intro conjI exI [of _ "[q]"]) simp_all
  next
    assume "\<exists>q1 q2 e1. requests s' = requests s @ [q1, q2] \<and> req_error q1 = Some e1 \<and>
         (error_status e1 = Some 401 \<or> error_status e1 = Some 403) \<and> answered q2 res \<and>
         req_url q1 = url \<and> req_url q2 = url"
    then obtain q1 q2 e1 where "requests s' = requests s @ [q1, q2]" "req_error q1 = Some e1"
      "error_status e1 = Some 401 \<or> error_status e1 = Some 403" "answered q2 res"
      "req_url q1 = url" "req_url q2 = url"
      by auto
    with c show ?thesis
      by (intro conjI exI [of _ "[q1, q2]"]) simp_all
  qed
qed

section \<open>The cache of \<open>getFilesByRepo\<close>\<close>



lemmas world_defs =
  quiet_world_def late_world_def reauth_world_def fresh_world_def public_repo_def
  excluded_repo_def stale_service_def stale_entry_def entry_def not_found_error_def
  unauthorized_error_def CACHE_DURATION_def




section \<open>Display names in the merged result\<close>

text \<open>
  Claim C5. In the array that \<open>getFiles\<close> returns, every entry carries its repository;
  an entry whose name also occurs on an entry of another repository has the display
  name \<open>"{name} ({owner}/{repo})"\<close> built from its own repository, and an entry whose
  name occurs once in the array has its name as display name. The hypothesis is the
  invariant of the cache.
\<close>

theorem getFiles_displayName:
  assumes "cache_ok s" "getFiles w s c force ctx = (files, s')" "f \<in> set files"
  shows "\<exists>r. f_repo f = Some r \<and>
     ((\<exists>g \<in> set files. f_name g = f_name f \<and> f_repo g \<noteq> f_repo f) \<longrightarrow>
        f_displayName f = Some (f_name f @ '' ('' @ owner r @ ''/'' @ repo r @ '')'')) \<and>
     (count_list (map f_name files) (f_name f) = 1 \<longrightarrow> f_displayName f = Some (f_name f))"
  using assms(2)
proof (cases rule: getFiles_result)
  case (1 srcs s1 s2 allFiles touched)
  let ?D = "count_names allFiles Map.empty {}"
  from getFiles_ok [OF assms(2) assms(1)] assms(3) obtain r where r: "f_repo f = Some r"
    by (auto simp: entry_ok_def)
  from assms(3) 1(5) obtain f0 where f0: "f0 \<in> set allFiles" "f = set_displayName ?D f0"
    by auto
  with r have r0: "f_repo f0 = Some r" by simp
  have names: "map f_name files = map f_name allFiles"
    unfolding 1(5) by simp
  have dup: "f_displayName f = Some (f_name f @ '' ('' @ owner r @ ''/'' @ repo r @ '')'')"
    if "\<exists>g \<in> set files. f_name g = f_name f \<and> f_repo g \<noteq> f_repo f"
  proof -
    from that obtain g where g: "g \<in> set files" "f_name g = f_name f" "f_repo g \<noteq> f_repo f"
      by auto
    then have "g \<noteq> f" by auto
    from two_entries_counted [OF g(1) assms(3) this g(2) refl]
    have "2 \<le> count_list (map f_name allFiles) (f_name f)"
      by (simp add: names)
    then have "f_name f0 \<in> ?D"
      using f0 by (simp add: duplicateNames_iff)
    with f0 r0 show ?thesis
      by (simp add: set_displayName_def)
  qed
  have single: "f_displayName f = Some (f_name f)"
    if "count_list (map f_name files) (f_name f) = 1"
  proof -
    from that have "f_name f0 \<notin> ?D"
      using f0 by (simp add: duplicateNames_iff names)
    with f0 r0 show ?thesis
      by (simp add: set_displayName_def)
  qed
  from r dup single show ?thesis by blast
qed

theorem getFiles_displayName_witness:
  "cache_ok init_service \<and>
   map f_displayName (fst (getFiles two_repo_world init_service Instructions False
      (Some (Sources [alice_repo, bob_repo])))) =
     [Some ''x.md (alice/tools)'', Some ''a.md'', Some ''x.md (bob/kit)'']"
proof -
  let ?g = "getFiles two_repo_world init_service Instructions False
      (Some (Sources [alice_repo, bob_repo]))"
  let ?x = "(entry ''x.md'' ''instructions/x.md'' ''file'')"
  let ?a = "(entry ''a.md'' ''instructions/a.md'' ''file'')"
  have ev: "map (\<lambda>f. (f_name f, f_repo f)) (fst ?g) =
      [(''x.md'', Some alice_repo), (''a.md'', Some alice_repo), (''x.md'', Some bob_repo)]"
    by (simp add: service_defs two_repo_world_def quiet_world_def alice_repo_def bob_repo_def
        entry_def not_found_error_def)
  then obtain f1 f2 f3 where fs: "fst ?g = [f1, f2, f3]"
    "f_name f1 = ''x.md''" "f_repo f1 = Some alice_repo"
    "f_name f2 = ''a.md''" "f_repo f2 = Some alice_repo"
    "f_name f3 = ''x.md''" "f_repo f3 = Some bob_repo"
    by (auto simp: map_eq_Cons_conv)
  have ne: "alice_repo \<noteq> bob_repo"
    by (simp add: alice_repo_def bob_repo_def)
  have pr: "?g = (fst ?g, snd ?g)" by simp
  note t = getFiles_displayName [OF cache_ok_init pr]
  from t [of f1] fs ne have 1: "f_displayName f1 = Some ''x.md (alice/tools)''"
    by (auto simp: alice_repo_def)
  from t [of f2] fs have 2: "f_displayName f2 = Some ''a.md''"
    by auto
  from t [of f3] fs ne have 3: "f_displayName f3 = Some ''x.md (bob/kit)''"
    by (auto simp: bob_repo_def)
  from 1 2 3 fs cache_ok_init show ?thesis by simp
qed

section \<open>Certificate validation and the public host\<close>

text \<open>
  Claim C8 says that certificate validation is never disabled for a request to the
  default public host. The code decides by \<open>!!repo.baseUrl\<close>, or for a download by the
  absence of the substring \<open>github.com\<close> in the URL, not by the host. With the setting
  switched on, a source whose \<open>baseUrl\<close> is the public API host is listed with
  \<open>NODE_TLS_REJECT_UNAUTHORIZED = '0'\<close> (although \<open>createHttpsAgent\<close> sees
  \<open>github.com\<close> in the URL and creates no insecure agent), and a file of a public
  repository is downloaded from \<open>raw.githubusercontent.com\<close> with the variable at \<open>'0'\<close> and
  an agent that rejects no certificate.
\<close>

theorem public_host_validation_disabled:
  "requests (snd (getFilesByRepo opted_in_world init_service public_as_enterprise Agents False)) =
     [\<lparr>req_url = ''https://api.github.com/api/v3/repos/github/awesome-copilot/contents/agents'',
       req_config = \<lparr>cfg_authorization = None, cfg_withCredentials = True, cfg_httpsAgent = None\<rparr>,
       req_tls_env = Some ''0'', req_error = Some not_found_error\<rparr>] \<and>
   requests (snd (getFileContent opted_in_world init_service public_raw_url)) =
     [\<lparr>req_url = public_raw_url,
       req_config = \<lparr>cfg_authorization = None, cfg_withCredentials = True,
                     cfg_httpsAgent = Some (Agent False False)\<rparr>,
       req_tls_env = Some ''0'', req_error = Some not_found_error\<rparr>]"
  by (simp add: service_defs opted_in_world_def quiet_world_def public_as_enterprise_def
      public_repo_def public_raw_url_def not_found_error_def)

section \<open>Manifests in the shorthand form\<close>

lemmas manifest_defs =
  parsePluginJson_def validate_manifest_def validate_items.simps validate_item_def
  PLUGIN_JSON_RELATIVE_PATH_def invalid_format_def last_segment_def allowedKinds_def
  manifest_world_def trim_def is_ws_def

text \<open>
  Claim C1 says that a manifest with at least one shorthand array is accepted. The
  parser asks for \<open>Array.isArray(metadata.items)\<close> and nothing else: the manifest of the
  test "should parse current format with only skills (no agents)" is rejected with
  the error that names \<open>"items"\<close>.
\<close>

theorem shorthand_only_manifest_rejected:
  "fst (parsePluginJson (manifest_world skills_only_text skills_only_manifest) init_service
          public_repo ''plugins/skills-only'') =
     Inl (Error (''Failed to parse plugin.json: Invalid plugin.json format: '' @
                 ''missing or invalid \"items\" array''))"
  by (simp add: manifest_defs service_defs quiet_world_def public_repo_def
      skills_only_text_def skills_only_manifest_def)

text \<open>
  Claim C2 says that the manifest at \<open>plugins/foo\<close> with \<open>skills: ["./skills/bar/"]\<close>
  yields one item of kind \<open>skill\<close> and path \<open>plugins/foo/skills/bar\<close>. The parser never
  reads \<open>agents\<close> or \<open>skills\<close>: the manifest is rejected for its missing \<open>items\<close>.
\<close>

theorem shorthand_not_expanded:
  "fst (parsePluginJson (manifest_world foo_text foo_manifest) init_service
          public_repo ''plugins/foo'') =
     Inl (Error (''Failed to parse plugin.json: Invalid plugin.json format: '' @
                 ''missing or invalid \"items\" array''))"
  by (simp add: manifest_defs service_defs quiet_world_def public_repo_def
      foo_text_def foo_manifest_def)

section \<open>The accounting of a plugin download\<close>

lemma item_downloads_loop_step:
  "plugin_items_loop h w r ws (it # rest) c st =
     (case item_downloads h w r ws it st of
        (ok, st1) \<Rightarrow> plugin_items_loop h w r ws rest
           (if ok then c\<lparr>downloadedFiles := downloadedFiles c @
                           [projr (fst (download_plugin_item h w r ws it
                               (the (KIND_TO_CATEGORY (item_kind it))) st))],
                         downloadedCount := downloadedCount c + 1\<rparr>
            else c\<lparr>failedFiles := failedFiles c @
                      [if KIND_TO_CATEGORY (item_kind it) = None
                       then item_path it @ '' (unknown kind: '' @ item_kind it @ '')''
                       else item_path it],
                    errorCount := errorCount c + 1\<rparr>) st1)"
  by (auto simp: item_downloads_def split: option.splits sum.splits prod.splits)

lemma plugin_items_loop_counts:
  "plugin_items_loop h w r ws items c st = (c', st') \<Longrightarrow>
     length (item_outcomes h w r ws items st) = length items \<and>
     downloadedCount c' = downloadedCount c + length (filter id (item_outcomes h w r ws items st)) \<and>
     errorCount c' = errorCount c + length (filter Not (item_outcomes h w r ws items st)) \<and>
     length (failedFiles c') = length (failedFiles c) + length (filter Not (item_outcomes h w r ws items st)) \<and>
     ((\<forall>it \<in> set items. KIND_TO_CATEGORY (item_kind it) \<noteq> None) \<longrightarrow>
        failedFiles c' = failedFiles c @ failed_paths items (item_outcomes h w r ws items st))"
proof (induction items arbitrary: c st)
  case Nil
  then show ?case by (simp add: failed_paths_def)
next
  case (Cons it rest)
  obtain ok st1 where d: "item_downloads h w r ws it st = (ok, st1)"
    by (cases "item_downloads h w r ws it st")
  let ?c1 = "if ok then c\<lparr>downloadedFiles := downloadedFiles c @
                           [projr (fst (download_plugin_item h w r ws it
                               (the (KIND_TO_CATEGORY (item_kind it))) st))],
                         downloadedCount := downloadedCount c + 1\<rparr>
            else c\<lparr>failedFiles := failedFiles c @
                      [if KIND_TO_CATEGORY (item_kind it) = None
                       then item_path it @ '' (unknown kind: '' @ item_kind it @ '')''
                       else item_path it],
                    errorCount := errorCount c + 1\<rparr>"
  from Cons.prems d have l: "plugin_items_loop h w r ws rest ?c1 st1 = (c', st')"
    by (simp add: item_downloads_loop_step del: plugin_items_loop.simps)
  from Cons.IH [OF l] d show ?case
    by (cases ok) (auto simp: failed_paths_def)
qed

lemma validate_item_kind:
  "validate_item i j = None \<Longrightarrow> string_prop j ''kind'' \<in> set allowedKinds"
  by (cases "get_prop j ''kind''"; cases "the (get_prop j ''kind'')")
     (auto simp: validate_item_def split: if_splits)

lemma validate_items_kinds:
  "validate_items i js = None \<Longrightarrow> \<forall>j \<in> set js. string_prop j ''kind'' \<in> set allowedKinds"
proof (induction js arbitrary: i)
  case Nil
  then show ?case by simp
next
  case (Cons j js)
  then show ?case
    using validate_item_kind [of i j]
    by (auto split: option.splits simp del: string_prop.simps)
qed

lemma map_of_update_prop:
  "k' \<noteq> k \<Longrightarrow> map_of (update_prop k v kvs) k' = map_of kvs k'"
  by (induction kvs) auto

lemma validate_manifest_items:
  assumes "validate_manifest parsed dir = Inr md"
  shows "\<exists>items. get_prop md ''items'' = Some (JArray items) \<and> validate_items 0 items = None"
proof -
  from assms obtain m where m: "parsed = Some m"
    by (cases parsed) (simp_all add: validate_manifest_def)
  from assms m obtain items where i: "get_prop m ''items'' = Some (JArray items)"
    "validate_items 0 items = None"
    by (auto simp: validate_manifest_def split: if_splits option.splits json.splits)
  from assms m i have "md = m \<or> (\<exists>kvs v. m = JObject kvs \<and> md = JObject (update_prop ''id'' v kvs))"
    by (auto simp: validate_manifest_def split: if_splits option.splits json.splits)
  with i show ?thesis
    by (auto simp: map_of_update_prop)
qed

lemma allowed_kinds_have_category:
  "k \<in> set allowedKinds \<Longrightarrow> KIND_TO_CATEGORY k \<noteq> None"
  by (auto simp: allowedKinds_def KIND_TO_CATEGORY_def)

lemma validated_kinds:
  assumes "validate_manifest parsed dir = Inr md"
  shows "\<forall>it \<in> set (plugin_items md). KIND_TO_CATEGORY (item_kind it) \<noteq> None"
proof -
  from validate_manifest_items [OF assms] obtain items where
    i: "get_prop md ''items'' = Some (JArray items)" "validate_items 0 items = None"
    by auto
  show ?thesis
  proof
    fix it assume "it \<in> set (plugin_items md)"
    with i(1) obtain j where j: "j \<in> set items" "item_kind it = string_prop j ''kind''"
      by (auto simp: plugin_items_def simp del: string_prop.simps)
    with validate_items_kinds [OF i(2)] have "item_kind it \<in> set allowedKinds"
      by simp
    then show "KIND_TO_CATEGORY (item_kind it) \<noteq> None"
      by (rule allowed_kinds_have_category)
  qed
qed

lemma parsePluginJson_Inr:
  assumes "parsePluginJson w s r d = (Inr pr, s')"
  shows "\<exists>parsed. validate_manifest parsed d = Inr (metadata pr)"
  using assms
  by (auto simp: parsePluginJson_def Let_def split: prod.splits sum.splits)

lemma fs_extends_refl [simp]: "fs_extends st st"
  by (simp add: fs_extends_def)

lemma fs_extends_trans: "fs_extends a b \<Longrightarrow> fs_extends b c \<Longrightarrow> fs_extends a c"
  by (auto simp: fs_extends_def)

lemma fs_extends_svc [simp]: "fs_extends st (st'\<lparr>svc := s\<rparr>) = fs_extends st st'"
  by (simp add: fs_extends_def)

lemma fs_reliable_extends:
  "fs_reliable_from h (fs_tick st) \<Longrightarrow> fs_extends st st' \<Longrightarrow> fs_reliable_from h (fs_tick st')"
  by (simp add: fs_reliable_from_def fs_extends_def)

lemma log_grows_D:
  assumes "log_grows m" "m st = (res, st')"
  shows "fs_extends st st'"
proof -
  from assms(1) have "fs_extends st (snd (m st))"
    by (simp add: log_grows_def)
  with assms(2) show ?thesis by simp
qed

lemma log_grows_prims [simp]:
  "log_grows (fs_do h ev)"
  "log_grows (fs_existsSync h p)"
  "log_grows (succeed x)"
  "log_grows (call_getFileContent w u)"
  "log_grows (call_getFileContentByPath w r p)"
  "log_grows (call_getDirectoryContents w r p)"
  by (auto simp: log_grows_def fs_extends_def fs_do_def fs_existsSync_def succeed_def
      call_getFileContent_def call_getFileContentByPath_def call_getDirectoryContents_def
      split: prod.splits)

lemma log_grows_and_then [intro]:
  assumes "log_grows m" "\<And>x. log_grows (f x)"
  shows "log_grows (and_then m f)"
  unfolding log_grows_def
proof
  fix st
  obtain res st1 where m: "m st = (res, st1)" by (cases "m st")
  from log_grows_D [OF assms(1) m] have 1: "fs_extends st st1" .
  show "fs_extends st (snd (and_then m f st))"
  proof (cases res)
    case (Inl e)
    with m 1 show ?thesis by (simp add: and_then_def)
  next
    case (Inr x)
    obtain res2 st2 where f: "f x st1 = (res2, st2)" by (cases "f x st1")
    from fs_extends_trans [OF 1 log_grows_D [OF assms(2) f]] Inr m f show ?thesis
      by (simp add: and_then_def)
  qed
qed

lemma log_grows_ensure_dir [simp]: "log_grows (ensure_dir h p)"
  unfolding ensure_dir_def by (rule log_grows_and_then) simp_all

lemma log_grows_for_each:
  assumes "\<And>x. log_grows (body x)"
  shows "log_grows (for_each body xs)"
  unfolding log_grows_def
proof
  fix st
  show "fs_extends st (snd (for_each body xs st))"
  proof (induction xs arbitrary: st)
    case Nil
    then show ?case by simp
  next
    case (Cons x xs)
    obtain res st1 where b: "body x st = (res, st1)" by (cases "body x st")
    from log_grows_D [OF assms b] have 1: "fs_extends st st1" .
    show ?case
    proof (cases res)
      case (Inl e)
      with b 1 show ?thesis by simp
    next
      case (Inr u)
      with b fs_extends_trans [OF 1 Cons.IH [of st1]] show ?thesis by simp
    qed
  qed
qed

lemma log_grows_attempt: "log_grows m \<Longrightarrow> fs_extends st (attempt m st)"
  by (simp add: log_grows_def attempt_def)

lemma log_grows_copy_subdir_file [simp]: "log_grows (copy_subdir_file h w ld d f)"
proof -
  have "log_grows (and_then (ensure_dir h (path_dirname h (path_join h ld (drop (length (f_path d) + 1) (f_path f)))))
      (\<lambda>u. and_then (call_getFileContent w (f_download_url f))
         (\<lambda>content. fs_do h (Write (path_join h ld (drop (length (f_path d) + 1) (f_path f))) content))))"
    by (intro log_grows_and_then) simp_all
  from log_grows_attempt [OF this] show ?thesis
    by (simp add: log_grows_def copy_subdir_file_def Let_def)
qed

lemma log_grows_copy_subdir [simp]: "log_grows (copy_subdir h w pd n tops pc)"
  unfolding copy_subdir_def Let_def
  by (cases "find (\<lambda>f. f_type f = ''dir'' \<and> f_name f = n) tops")
     (auto intro!: log_grows_and_then log_grows_for_each)

lemma log_grows_save_plugin_json [simp]: "log_grows (save_plugin_json h pd md)"
  unfolding save_plugin_json_def Let_def
  by (intro log_grows_and_then) simp_all

lemma log_grows_save_readme [simp]: "log_grows (save_readme h w pd tops)"
  by (auto simp: log_grows_def fs_extends_def save_readme_def call_getFileContent_def fs_do_def
      split: option.splits prod.splits sum.splits)

lemma log_grows_save_plugin_files [simp]: "log_grows (save_plugin_files h w item pd md)"
  unfolding save_plugin_files_def Let_def
  by (intro log_grows_and_then) simp_all

lemma fs_do_reliable:
  "fs_reliable_from h (fs_tick st) \<Longrightarrow>
     fs_do h ev st = (Inr (), st\<lparr>fs_tick := Suc (fs_tick st), fs_log := fs_log st @ [ev]\<rparr>)"
  by (simp add: fs_do_def fs_reliable_from_def)

lemma ensure_dir_reliable:
  assumes "fs_reliable_from h (fs_tick st)"
  shows "fst (ensure_dir h p st) = Inr ()"
  using assms
  by (simp add: ensure_dir_def and_then_def fs_existsSync_def succeed_def fs_do_def
      fs_reliable_from_def)

lemma ensure_dir_ok:
  assumes "fs_reliable_from h (fs_tick st)"
  obtains st1 where "ensure_dir h p st = (Inr (), st1)" "fs_extends st st1"
proof -
  obtain res st1 where e: "ensure_dir h p st = (res, st1)" by (cases "ensure_dir h p st")
  with ensure_dir_reliable [OF assms, of p] have "res = Inr ()" by simp
  with e log_grows_D [OF log_grows_ensure_dir e] that show ?thesis by simp
qed

lemma for_each_copy_ok: "fst (for_each (copy_subdir_file h w ld d) fs st) = Inr ()"
  by (induction fs arbitrary: st) (simp_all add: copy_subdir_file_def)

lemma copy_subdir_ok:
  assumes "fs_reliable_from h (fs_tick st)"
  obtains st1 where "copy_subdir h w pd n tops pc st = (Inr (), st1)" "fs_extends st st1"
proof -
  obtain res st1 where c: "copy_subdir h w pd n tops pc st = (res, st1)"
    by (cases "copy_subdir h w pd n tops pc st")
  have "fst (copy_subdir h w pd n tops pc st) = Inr ()"
  proof (cases "find (\<lambda>f. f_type f = ''dir'' \<and> f_name f = n) tops")
    case None
    then show ?thesis by (simp add: copy_subdir_def succeed_def)
  next
    case (Some d)
    obtain st0 where e: "ensure_dir h (path_join h pd n) st = (Inr (), st0)"
      using ensure_dir_ok [OF assms] by blast
    with Some show ?thesis
      by (simp add: copy_subdir_def Let_def and_then_def for_each_copy_ok)
  qed
  with c have "res = Inr ()" by simp
  with c log_grows_D [OF log_grows_copy_subdir c] that show ?thesis by simp
qed

lemma save_plugin_json_reliable:
  assumes "fs_reliable_from h (fs_tick st)"
  shows "Write (plugin_json_path h pd) (JSON_stringify h md) \<in>
           set (fs_log (attempt (save_plugin_json h pd md) st))"
proof -
  let ?d = "path_join h (path_join h pd ''.github'') ''plugin''"
  obtain st1 where e: "ensure_dir h ?d st = (Inr (), st1)" "fs_extends st st1"
    using ensure_dir_ok [OF assms] by blast
  from fs_reliable_extends [OF assms e(2)] e(1) show ?thesis
    by (simp add: attempt_def save_plugin_json_def Let_def and_then_def fs_do_reliable
        plugin_json_path_def)
qed

lemma getFileContent_ok:
  assumes "\<forall>k. http_raw w k url = Inr body"
  shows "fst (getFileContent w s url) = Inr body"
proof -
  let ?ie = "\<not> str_includes url ''github.com''"
  obtain a s1 where h: "createRequestHeaders w s ?ie = (a, s1)"
    by (cases "createRequestHeaders w s ?ie")
  let ?cfg = "\<lparr>cfg_authorization = a, cfg_withCredentials = ?ie,
                cfg_httpsAgent = (if ?ie then createHttpsAgent w url else None)\<rparr>"
  let ?relax = "?ie \<and> allowInsecureEnterpriseCerts w"
  obtain res1 s2 where g: "tls_scoped ?relax (axios_get_raw w url ?cfg) s1 = (res1, s2)"
    by (cases "tls_scoped ?relax (axios_get_raw w url ?cfg) s1")
  have "res1 = fst (tls_scoped ?relax (axios_get_raw w url ?cfg) s1)"
    using g by simp
  then have "res1 = Inr body"
    using assms by simp
  with h g show ?thesis
    by (simp add: getFileContent_def Let_def)
qed

lemma call_getFileContent_ok:
  assumes "\<forall>k. http_raw w k url = Inr body"
  shows "\<exists>st1. call_getFileContent w url st = (Inr body, st1) \<and> fs_log st1 = fs_log st \<and>
           fs_tick st1 = fs_tick st"
proof -
  obtain res s1 where g: "getFileContent w (svc st) url = (res, s1)"
    by (cases "getFileContent w (svc st) url")
  have "res = Inr body"
    using getFileContent_ok [OF assms, of "svc st"] g by simp
  with g show ?thesis
    by (simp add: call_getFileContent_def)
qed

lemma save_readme_none:
  "find_readme tops = None \<Longrightarrow> save_readme h w pd tops st = (Inr [], st)"
  by (simp add: save_readme_def)

lemma save_readme_some:
  assumes nf: "fs_reliable_from h (fs_tick st)"
    and fr: "find_readme tops = Some rf"
    and ok: "\<forall>k. http_raw w k (f_download_url rf) = Inr body"
  obtains st' where "save_readme h w pd tops st = (Inr body, st')"
    "Write (path_join h pd ''README.md'') body \<in> set (fs_log st')" "fs_extends st st'"
proof -
  obtain st1 where c: "call_getFileContent w (f_download_url rf) st = (Inr body, st1)"
    "fs_log st1 = fs_log st" "fs_tick st1 = fs_tick st"
    using call_getFileContent_ok [OF ok, of st] by blast
  from nf c have nf1: "fs_reliable_from h (fs_tick st1)" by simp
  obtain res st' where s: "save_readme h w pd tops st = (res, st')"
    by (cases "save_readme h w pd tops st")
  from s fr c fs_do_reliable [OF nf1] have "res = Inr body"
    "Write (path_join h pd ''README.md'') body \<in> set (fs_log st')"
    by (auto simp: save_readme_def)
  with s log_grows_D [OF log_grows_save_readme s] that show ?thesis by simp
qed

lemma save_plugin_files_reliable:
  assumes nf: "fs_reliable_from h (fs_tick st)"
    and dc: "\<forall>k. directoryContents w k (ci_repo item) (f_path (ci_file item)) = Inr contents"
  shows "case find_readme (top_level_items item contents) of
           None \<Rightarrow>
             Write (path_join h pd NOTE_FILE) (generateNoteContent h [] (plugin_id md item))
               \<in> set (fs_log (attempt (save_plugin_files h w item pd md) st))
         | Some rf \<Rightarrow>
             (\<forall>k. http_raw w k (f_download_url rf) = Inr body) \<longrightarrow>
             Write (path_join h pd ''README.md'') body
               \<in> set (fs_log (attempt (save_plugin_files h w item pd md) st)) \<and>
             Write (path_join h pd NOTE_FILE) (generateNoteContent h body (plugin_id md item))
               \<in> set (fs_log (attempt (save_plugin_files h w item pd md) st))"
proof -
  let ?tops = "top_level_items item contents"
  let ?st1 = "st\<lparr>svc := (svc st)\<lparr>tick := Suc (tick (svc st))\<rparr>\<rparr>"
  have d: "call_getDirectoryContents w (ci_repo item) (f_path (ci_file item)) st = (Inr contents, ?st1)"
    using dc by (simp add: call_getDirectoryContents_def)
  have nf1: "fs_reliable_from h (fs_tick ?st1)" using nf by simp
  obtain st2 where a: "copy_subdir h w pd ''agents'' ?tops contents ?st1 = (Inr (), st2)"
    "fs_extends ?st1 st2"
    using copy_subdir_ok [OF nf1] by blast
  note nf2 = fs_reliable_extends [OF nf1 a(2)]
  obtain st3 where c: "copy_subdir h w pd ''commands'' ?tops contents st2 = (Inr (), st3)"
    "fs_extends st2 st3"
    using copy_subdir_ok [OF nf2] by blast
  note nf3 = fs_reliable_extends [OF nf2 c(2)]
  show ?thesis
  proof (cases "find_readme ?tops")
    case None
    with d a c fs_do_reliable [OF nf3] show ?thesis
      by (simp add: save_plugin_files_def and_then_def attempt_def Let_def save_readme_none)
  next
    case (Some rf)
    show ?thesis
    proof (simp only: Some option.case, intro impI)
      assume ok: "\<forall>k. http_raw w k (f_download_url rf) = Inr body"
      obtain st4 where r: "save_readme h w pd ?tops st3 = (Inr body, st4)"
        "Write (path_join h pd ''README.md'') body \<in> set (fs_log st4)" "fs_extends st3 st4"
        using save_readme_some [OF nf3 Some ok] by blast
      note nf4 = fs_reliable_extends [OF nf3 r(3)]
      from d a c r fs_do_reliable [OF nf4]
      show "Write (path_join h pd ''README.md'') body
               \<in> set (fs_log (attempt (save_plugin_files h w item pd md) st)) \<and>
             Write (path_join h pd NOTE_FILE) (generateNoteContent h body (plugin_id md item))
               \<in> set (fs_log (attempt (save_plugin_files h w item pd md) st))"
        by (simp add: save_plugin_files_def and_then_def attempt_def Let_def)
    qed
  qed
qed

lemma downloadPlugin_Summary:
  assumes "downloadPlugin h w item st = (Summary c n, st')"
  obtains fsPath pr s1 st2 st3 where
    "workspaceFolder h = Some fsPath"
    "parsePluginJson w (svc st) (ci_repo item) (f_path (ci_file item)) = (Inr pr, s1)"
    "plugin_items_loop h w (ci_repo item) fsPath (plugin_items (metadata pr)) no_counts
       (st\<lparr>svc := s1\<rparr>) = (c, st2)"
    "n = length (plugin_items (metadata pr))"
    "ensure_dir h (path_join h (path_join h fsPath (FOLDER_PATHS (ci_category item)))
       (plugin_id (metadata pr) item)) st2 = (Inr (), st3)"
    "fs_log st' = fs_log
       (attempt (save_plugin_files h w item
           (path_join h (path_join h fsPath (FOLDER_PATHS (ci_category item)))
              (plugin_id (metadata pr) item)) (metadata pr))
         (attempt (save_plugin_json h
           (path_join h (path_join h fsPath (FOLDER_PATHS (ci_category item)))
              (plugin_id (metadata pr) item)) (metadata pr)) st3))"
  using assms
  by (auto simp: downloadPlugin_def Let_def
      split: option.splits prod.splits sum.splits if_splits)

lemma outcomes_partition: "length (filter id oks) + length (filter Not oks) = length oks"
  by (induction oks) auto


lemmas download_defs =
  downloadPlugin_def plugin_items_def plugin_items_loop.simps download_plugin_item_def
  KIND_TO_CATEGORY_def last_segment_or_def and_then_def succeed_def
  ensure_dir_def fs_existsSync_def fs_do_def call_getFileContent_def
  call_getFileContentByPath_def call_getDirectoryContents_def attempt_def
  save_plugin_json_def save_plugin_files_def save_readme_def find_readme_def
  top_level_items_def copy_subdir_def plugin_id_def NOTE_FILE_def no_counts_def
  clearCategoryCache_def
  kit_text_def kit_manifest_def inline_file_def kit_world_def kit_host_def kit_item_def
  kit_start_def timeout_error_def

lemma kit_outcome:
  "fst (downloadPlugin kit_host kit_world kit_item kit_start) =
     Summary \<lparr>downloadedCount = 4, errorCount = 1,
       downloadedFiles = [''instruction: style.instructions.md'', ''prompt: review.prompt.md'',
                          ''agent: helper.agent.md'', ''prompt: test.prompt.md''],
       failedFiles = [''prompts/broken.prompt.md'']\<rparr> 5"
  by (simp add: download_defs manifest_defs service_defs world_defs)


section \<open>What the manifest parser accepts\<close>

text \<open>
  The parser decides on \<open>items\<close> alone. A manifest object with a name and a description
  is rejected with the error that names \<open>"items"\<close> whenever \<open>items\<close> is not an array, and
  accepted whenever \<open>items\<close> is an array of valid entries, the empty array included.
\<close>

lemma no_items_array_rejected:
  assumes "is_object md" "nonblank_string (get_prop md ''name'')"
    "nonblank_string (get_prop md ''description'')"
    "\<And>items. get_prop md ''items'' \<noteq> Some (JArray items)"
  shows "validate_manifest (Some md) dir =
           Inl (invalid_format ''missing or invalid \"items\" array'')"
proof (cases "get_prop md ''items''")
  case None
  with assms(1-3) show ?thesis by (simp add: validate_manifest_def)
next
  case (Some v)
  show ?thesis
  proof (cases v)
    case (JArray xs)
    with Some assms(4) [of xs] show ?thesis by simp
  qed (use Some assms(1-3) in \<open>simp_all add: validate_manifest_def\<close>)
qed

lemma plugin_items_update_id:
  "plugin_items (JObject (update_prop ''id'' v kvs)) = plugin_items (JObject kvs)"
  by (simp add: plugin_items_def map_of_update_prop)

lemma valid_items_accepted:
  assumes "is_object md" "nonblank_string (get_prop md ''name'')"
    "nonblank_string (get_prop md ''description'')"
    "get_prop md ''items'' = Some (JArray items)" "validate_items 0 items = None"
  shows "\<exists>md'. validate_manifest (Some md) dir = Inr md' \<and>
           plugin_items md' =
             map (\<lambda>j. \<lparr>item_path = string_prop j ''path'', item_kind = string_prop j ''kind''\<rparr>) items"
proof (cases md)
  case (JObject kvs)
  with assms have "plugin_items (JObject kvs) =
      map (\<lambda>j. \<lparr>item_path = string_prop j ''path'', item_kind = string_prop j ''kind''\<rparr>) items"
    by (simp add: plugin_items_def)
  with assms JObject show ?thesis
    by (auto simp: validate_manifest_def plugin_items_update_id
        split: option.splits json.splits)
qed (use assms in simp_all)

lemma empty_items_accepted:
  assumes "nonblank_string (Some (JString n))" "nonblank_string (Some (JString d))"
  shows "\<exists>md'. validate_manifest
           (Some (JObject [(''name'', JString n), (''description'', JString d),
                           (''items'', JArray [])])) dir = Inr md' \<and>
         plugin_items md' = []"
  using valid_items_accepted [of "JObject [(''name'', JString n), (''description'', JString d),
                           (''items'', JArray [])]" "[]" dir] assms
  by simp

lemma parsePluginJson_validates:
  assumes "getFileContentByPath w s r (d @ ''/'' @ PLUGIN_JSON_RELATIVE_PATH) = (Inr fd, s1)"
  shows "parsePluginJson w s r d =
     (case validate_manifest (JSON_parse w (fd_content fd)) d of
        Inl m \<Rightarrow> (Inl (Error (''Failed to parse plugin.json: '' @ m)), s1)
      | Inr md \<Rightarrow> (Inr \<lparr>metadata = md, rawContent = fd_content fd\<rparr>, s1))"
  using assms by (simp add: parsePluginJson_def Let_def)

end
